theory Spec2Isabelle
  imports Main "HOL-Library.Word"
begin

section \<open>The buffer pool manager of buffer\_pool\_manager.cpp\<close>

text \<open>
  The manager is a class whose methods mutate its members under one latch. Each method
  is modelled as a function from the state of the manager to a result and the new
  state; the latch is held from the first to the last statement of every method, so a
  method is one atomic step. A returned \<^verbatim>\<open>Page *\<close> is \<^verbatim>\<open>&pages_[frameId]\<close>
  and is modelled by the frame index, \<^verbatim>\<open>nullptr\<close> by \<open>None\<close>.
\<close>

subsection \<open>Identifiers and frames\<close>

type_synonym page_id_t = int
type_synonym frame_id_t = int
type_synonym byte = "8 word"

text \<open>
  Modelled from the spec: the configuration header is not among the sources. The spec
  reserves one sentinel page identifier for "invalid/no page" and fixes the size of a
  frame's buffer to the disk page size; BusTub uses -1 and 4096.
\<close>

definition INVALID_PAGE_ID :: page_id_t where
  "INVALID_PAGE_ID = -1"

definition PAGE_SIZE :: nat where
  "PAGE_SIZE = 4096"

text \<open>
  Modelled from the spec: the \<^verbatim>\<open>Page\<close> class is not among the sources. The spec
  gives a frame its bytes, the resident page id, the pin count (an integer, modelled
  without an upper bound) and the dirty flag; a frame that was never assigned is zeroed,
  holds the invalid id, is unpinned and clean.
\<close>

record page =
  data :: "byte list"
  page_id :: page_id_t
  pin_count :: int
  is_dirty :: bool

definition ResetMemory :: "page \<Rightarrow> page" where
  "ResetMemory pg = pg\<lparr>data := replicate PAGE_SIZE 0\<rparr>"

definition fresh_page :: page where
  "fresh_page = \<lparr>data = replicate PAGE_SIZE 0, page_id = INVALID_PAGE_ID,
                  pin_count = 0, is_dirty = False\<rparr>"

subsection \<open>The storage collaborator\<close>

text \<open>
  Modelled from the spec: the disk manager is not among the sources. Section 6 of the
  spec gives its contract: \<^verbatim>\<open>ReadPage\<close> fills the buffer with the persisted bytes
  of the page and fails for an identifier that holds none (the manager does not look at
  the outcome; the model leaves the buffer as it was), \<^verbatim>\<open>WritePage\<close> persists the
  buffer, \<^verbatim>\<open>AllocatePage\<close> returns an identifier not returned before (a counter),
  \<^verbatim>\<open>DeallocatePage\<close> may be a placeholder without effect. Every call is recorded
  in \<open>disk_log\<close>, so that "performs no write" is a statement about the state.
\<close>

datatype disk_call =
    DiskRead page_id_t
  | DiskWrite page_id_t "byte list"
  | DiskAllocate page_id_t
  | DiskDeallocate page_id_t

record disk_state =
  stored :: "page_id_t \<Rightarrow> byte list option"
  next_page_id :: page_id_t
  disk_log :: "disk_call list"

definition ReadPage :: "page_id_t \<Rightarrow> byte list \<Rightarrow> disk_state \<Rightarrow> byte list \<times> disk_state" where
  "ReadPage pid buf d =
     ((case stored d pid of None \<Rightarrow> buf | Some bytes \<Rightarrow> bytes),
      d\<lparr>disk_log := disk_log d @ [DiskRead pid]\<rparr>)"

definition WritePage :: "page_id_t \<Rightarrow> byte list \<Rightarrow> disk_state \<Rightarrow> disk_state" where
  "WritePage pid buf d =
     d\<lparr>stored := (stored d)(pid \<mapsto> buf), disk_log := disk_log d @ [DiskWrite pid buf]\<rparr>"

definition AllocatePage :: "disk_state \<Rightarrow> page_id_t \<times> disk_state" where
  "AllocatePage d =
     (next_page_id d,
      d\<lparr>next_page_id := next_page_id d + 1,
        disk_log := disk_log d @ [DiskAllocate (next_page_id d)]\<rparr>)"

definition DeallocatePage :: "page_id_t \<Rightarrow> disk_state \<Rightarrow> disk_state" where
  "DeallocatePage pid d = d\<lparr>disk_log := disk_log d @ [DiskDeallocate pid]\<rparr>"

subsection \<open>The replacement policy\<close>

text \<open>
  Modelled from the spec: the replacer class is not among the sources. Section 4.2 of
  the spec gives the contract the manager consumes: \<^verbatim>\<open>Unpin(frame)\<close> marks a frame
  evictable, \<^verbatim>\<open>Pin(frame)\<close> marks it non-evictable, \<^verbatim>\<open>Victim\<close> returns some
  currently evictable frame and takes it out of the policy, or nothing when no frame
  is evictable. The spec leaves the choice among several evictable frames to the policy;
  the model keeps the evictable frames in the order in which they became evictable and
  takes the oldest (the strict LRU list the spec names as a conforming policy). Every
  call is recorded in \<open>replacer_log\<close> with the argument the manager passed.
\<close>

datatype replacer_call =
    CallPin frame_id_t
  | CallUnpin frame_id_t
  | CallVictim

record replacer_state =
  evictable :: "frame_id_t list"
  replacer_log :: "replacer_call list"

definition Pin :: "frame_id_t \<Rightarrow> replacer_state \<Rightarrow> replacer_state" where
  "Pin f r = r\<lparr>evictable := removeAll f (evictable r),
              replacer_log := replacer_log r @ [CallPin f]\<rparr>"

definition Unpin :: "frame_id_t \<Rightarrow> replacer_state \<Rightarrow> replacer_state" where
  "Unpin f r = r\<lparr>evictable := (if f \<in> set (evictable r) then evictable r else evictable r @ [f]),
                replacer_log := replacer_log r @ [CallUnpin f]\<rparr>"

definition Victim :: "replacer_state \<Rightarrow> frame_id_t option \<times> replacer_state" where
  "Victim r =
     (case evictable r of
        [] \<Rightarrow> (None, r\<lparr>replacer_log := replacer_log r @ [CallVictim]\<rparr>)
      | f # fs \<Rightarrow> (Some f, r\<lparr>evictable := fs, replacer_log := replacer_log r @ [CallVictim]\<rparr>))"

subsection \<open>The page table\<close>

text \<open>
  \<^verbatim>\<open>std::unordered_map<page_id_t, frame_id_t>\<close>: \<^verbatim>\<open>find\<close>, \<^verbatim>\<open>insert\<close> (which leaves
  the map as it is when the key is present), \<^verbatim>\<open>erase\<close> by key, and \<^verbatim>\<open>size\<close>, the
  length of the list of entries.
\<close>

type_synonym page_table_t = "(page_id_t \<times> frame_id_t) list"

definition pt_find :: "page_table_t \<Rightarrow> page_id_t \<Rightarrow> frame_id_t option" where
  "pt_find t pid = map_of t pid"

definition pt_insert :: "page_id_t \<Rightarrow> frame_id_t \<Rightarrow> page_table_t \<Rightarrow> page_table_t" where
  "pt_insert pid f t = (if map_of t pid = None then t @ [(pid, f)] else t)"

definition pt_erase :: "page_id_t \<Rightarrow> page_table_t \<Rightarrow> page_table_t" where
  "pt_erase pid t = filter (\<lambda>e. fst e \<noteq> pid) t"

subsection \<open>The state of the manager\<close>

record bpm =
  pool_size :: nat
  pages :: "page list"
  page_table :: page_table_t
  free_list :: "frame_id_t list"
  replacer :: replacer_state
  disk_manager :: disk_state

text \<open>\<^verbatim>\<open>pages_[frameId]\<close>, read and written.\<close>

definition page_at :: "bpm \<Rightarrow> frame_id_t \<Rightarrow> page" where
  "page_at s f = pages s ! nat f"

definition set_page :: "frame_id_t \<Rightarrow> (page \<Rightarrow> page) \<Rightarrow> bpm \<Rightarrow> bpm" where
  "set_page f g s = s\<lparr>pages := (pages s)[nat f := g (pages s ! nat f)]\<rparr>"

text \<open>The constructor: every frame starts on the free list, in index order.\<close>

definition BufferPoolManager :: "nat \<Rightarrow> disk_state \<Rightarrow> bpm" where
  "BufferPoolManager n d =
     \<lparr>pool_size = n, pages = replicate n fresh_page, page_table = [],
      free_list = map int [0..<n],
      replacer = \<lparr>evictable = [], replacer_log = []\<rparr>,
      disk_manager = d\<rparr>"

subsection \<open>The operations\<close>

definition FlushPageImplWithoutLock :: "page_id_t \<Rightarrow> bpm \<Rightarrow> bool \<times> bpm" where
  "FlushPageImplWithoutLock pid s =
     (case pt_find (page_table s) pid of
        None \<Rightarrow> (False, s)
      | Some frameId \<Rightarrow>
          if is_dirty (page_at s frameId)
          then (True,
                set_page frameId (\<lambda>pg. pg\<lparr>is_dirty := False\<rparr>)
                  (s\<lparr>disk_manager := WritePage pid (data (page_at s frameId)) (disk_manager s)\<rparr>))
          else (True, s))"

definition FlushPageImpl :: "page_id_t \<Rightarrow> bpm \<Rightarrow> bool \<times> bpm" where
  "FlushPageImpl pid s = FlushPageImplWithoutLock pid s"

text \<open>
  Lines 72 to 77 of \<^verbatim>\<open>FetchPageImpl\<close>: the write-back of the chosen frame, and the
  removal of its page-table entry, both inside the test of the dirty flag.
\<close>

definition fetch_write_back :: "frame_id_t \<Rightarrow> bpm \<Rightarrow> bpm" where
  "fetch_write_back frameId s =
     (if is_dirty (page_at s frameId)
      then (let pageIdToDelete = page_id (page_at s frameId);
                s1 = snd (FlushPageImplWithoutLock pageIdToDelete s)
            in s1\<lparr>page_table := pt_erase pageIdToDelete (page_table s1)\<rparr>)
      else s)"

text \<open>Lines 79 to 85: the metadata of the frame, the read from disk, the new entry.\<close>

definition fetch_load :: "page_id_t \<Rightarrow> frame_id_t \<Rightarrow> bpm \<Rightarrow> bpm" where
  "fetch_load pid frameId s =
     (let s1 = set_page frameId
                 (\<lambda>pg. (ResetMemory pg)\<lparr>page_id := pid, is_dirty := False, pin_count := 1\<rparr>) s;
          (bytes, d) = ReadPage pid (data (page_at s1 frameId)) (disk_manager s1);
          s2 = set_page frameId (\<lambda>pg. pg\<lparr>data := bytes\<rparr>) (s1\<lparr>disk_manager := d\<rparr>)
      in s2\<lparr>page_table := pt_insert pid frameId (page_table s2)\<rparr>)"

definition fetch_into :: "page_id_t \<Rightarrow> frame_id_t \<Rightarrow> bpm \<Rightarrow> bpm" where
  "fetch_into pid frameId s = fetch_load pid frameId (fetch_write_back frameId s)"

definition FetchPageImpl :: "page_id_t \<Rightarrow> bpm \<Rightarrow> frame_id_t option \<times> bpm" where
  "FetchPageImpl pid s =
     (case pt_find (page_table s) pid of
        Some frameId \<Rightarrow>
          (Some frameId,
           (set_page frameId (\<lambda>pg. pg\<lparr>pin_count := pin_count pg + 1\<rparr>) s)
             \<lparr>replacer := Pin pid (replacer s)\<rparr>)
      | None \<Rightarrow>
          if free_list s \<noteq> []
          then (Some (hd (free_list s)),
                fetch_into pid (hd (free_list s)) (s\<lparr>free_list := tl (free_list s)\<rparr>))
          else (case Victim (replacer s) of
                  (None, r) \<Rightarrow> (None, s\<lparr>replacer := r\<rparr>)
                | (Some frameId, r) \<Rightarrow> (Some frameId, fetch_into pid frameId (s\<lparr>replacer := r\<rparr>))))"

definition UnpinPageImpl :: "page_id_t \<Rightarrow> bool \<Rightarrow> bpm \<Rightarrow> bool \<times> bpm" where
  "UnpinPageImpl pid dirty s =
     (case pt_find (page_table s) pid of
        None \<Rightarrow> (False, s)
      | Some frameId \<Rightarrow>
          if pin_count (page_at s frameId) = 0 then (False, s)
          else (let s1 = set_page frameId
                           (\<lambda>pg. pg\<lparr>pin_count := pin_count pg - 1,
                                    is_dirty := (is_dirty pg \<or> dirty)\<rparr>) s
                in (True,
                    if pin_count (page_at s1 frameId) = 0
                    then s1\<lparr>replacer := Unpin frameId (replacer s1)\<rparr>
                    else s1)))"

text \<open>
  Lines 165 to 170 of \<^verbatim>\<open>NewPageImpl\<close>, for a frame that came from the replacer: the
  write-back inside the test of the dirty flag, the removal of the entry after it.
\<close>

definition new_write_back :: "frame_id_t \<Rightarrow> bpm \<Rightarrow> bpm" where
  "new_write_back freeFrameId s =
     (let pageIdToDelete = page_id (page_at s freeFrameId);
          s1 = (if is_dirty (page_at s freeFrameId)
                then snd (FlushPageImplWithoutLock pageIdToDelete s)
                else s)
      in s1\<lparr>page_table := pt_erase pageIdToDelete (page_table s1)\<rparr>)"

text \<open>Lines 175 to 180: the new identifier, the metadata of the frame, the new entry.\<close>

definition new_into :: "frame_id_t \<Rightarrow> bpm \<Rightarrow> page_id_t \<times> bpm" where
  "new_into freeFrameId s =
     (let (new_id, d) = AllocatePage (disk_manager s);
          s1 = set_page freeFrameId
                 (\<lambda>pg. (ResetMemory pg)\<lparr>page_id := new_id, pin_count := 1\<rparr>)
                 (s\<lparr>disk_manager := d\<rparr>)
      in (new_id, s1\<lparr>page_table := pt_insert new_id freeFrameId (page_table s1)\<rparr>))"

definition NewPageImpl :: "bpm \<Rightarrow> (page_id_t \<times> frame_id_t) option \<times> bpm" where
  "NewPageImpl s =
     (if length (free_list s) > 0
      then (let freeFrameId = hd (free_list s);
                (new_id, s1) = new_into freeFrameId (s\<lparr>free_list := tl (free_list s)\<rparr>)
            in (Some (new_id, freeFrameId), s1))
      else (case Victim (replacer s) of
              (None, r) \<Rightarrow> (None, s\<lparr>replacer := r\<rparr>)
            | (Some freeFrameId, r) \<Rightarrow>
                (let (new_id, s1) = new_into freeFrameId (new_write_back freeFrameId (s\<lparr>replacer := r\<rparr>))
                 in (Some (new_id, freeFrameId), s1))))"

definition DeletePageImpl :: "page_id_t \<Rightarrow> bpm \<Rightarrow> bool \<times> bpm" where
  "DeletePageImpl pid s =
     (case pt_find (page_table s) pid of
        None \<Rightarrow> (True, s)
      | Some frameId \<Rightarrow>
          if pin_count (page_at s frameId) > 0 then (False, s)
          else (let s1 = s\<lparr>page_table := pt_erase pid (page_table s)\<rparr>;
                    s2 = set_page frameId
                           (\<lambda>pg. (ResetMemory pg)\<lparr>page_id := INVALID_PAGE_ID, pin_count := 0,
                                                  is_dirty := False\<rparr>) s1;
                    s3 = s2\<lparr>free_list := free_list s2 @ [frameId]\<rparr>
                in (True, s3\<lparr>disk_manager := DeallocatePage pid (disk_manager s3)\<rparr>)))"

text \<open>The body of the loop of \<^verbatim>\<open>FlushAllPagesImpl\<close> for one index, and the loop.\<close>

definition flush_frame :: "nat \<Rightarrow> bpm \<Rightarrow> bpm" where
  "flush_frame i s =
     (let pid = page_id (pages s ! i)
      in if pid = INVALID_PAGE_ID then s else snd (FlushPageImplWithoutLock pid s))"

primrec flush_frames :: "nat list \<Rightarrow> bpm \<Rightarrow> bpm" where
  "flush_frames [] s = s"
| "flush_frames (i # is) s = flush_frames is (flush_frame i s)"

definition FlushAllPagesImpl :: "bpm \<Rightarrow> bpm" where
  "FlushAllPagesImpl s = flush_frames [0..<pool_size s] s"

subsection \<open>Sequences of calls\<close>

text \<open>
  A caller's view: the six public operations, and \<open>WriteData\<close> for a caller that
  writes bytes through the handle of a frame it got from \<^verbatim>\<open>FetchPage\<close> or
  \<^verbatim>\<open>NewPage\<close> (the manager has no method for it: the bytes are written into
  \<^verbatim>\<open>GetData()\<close>).
\<close>

datatype op =
    FetchPage page_id_t
  | UnpinPage page_id_t bool
  | FlushPage page_id_t
  | FlushAllPages
  | NewPage
  | DeletePage page_id_t
  | WriteData frame_id_t "byte list"

fun step :: "op \<Rightarrow> bpm \<Rightarrow> bpm" where
  "step (FetchPage pid) s = snd (FetchPageImpl pid s)"
| "step (UnpinPage pid dirty) s = snd (UnpinPageImpl pid dirty s)"
| "step (FlushPage pid) s = snd (FlushPageImpl pid s)"
| "step FlushAllPages s = FlushAllPagesImpl s"
| "step NewPage s = snd (NewPageImpl s)"
| "step (DeletePage pid) s = snd (DeletePageImpl pid s)"
| "step (WriteData f bytes) s =
     (if 0 \<le> f \<and> nat f < length (pages s) then set_page f (\<lambda>pg. pg\<lparr>data := bytes\<rparr>) s else s)"

primrec run :: "op list \<Rightarrow> bpm \<Rightarrow> bpm" where
  "run [] s = s"
| "run (x # xs) s = run xs (step x s)"

section \<open>Predicates on states\<close>

text \<open>
  A frame index is valid for a pool of \<open>n\<close> frames when it indexes \<^verbatim>\<open>pages_\<close>. In
  a state with valid frames the array has \<open>pool_size\<close> frames and every index on the
  free list, in the page table and in the replacer is valid: every \<^verbatim>\<open>pages_[frameId]\<close>
  of the source is then an access inside the array.
\<close>

definition valid_frame :: "nat \<Rightarrow> frame_id_t \<Rightarrow> bool" where
  "valid_frame n f \<longleftrightarrow> 0 \<le> f \<and> nat f < n"

definition valid_frames :: "bpm \<Rightarrow> bool" where
  "valid_frames s \<longleftrightarrow>
     length (pages s) = pool_size s \<and>
     list_all (valid_frame (pool_size s)) (free_list s) \<and>
     list_all (valid_frame (pool_size s)) (map snd (page_table s)) \<and>
     list_all (valid_frame (pool_size s)) (evictable (replacer s))"

text \<open>No frame has a negative pin count.\<close>

definition pins_nonneg :: "bpm \<Rightarrow> bool" where
  "pins_nonneg s \<longleftrightarrow> list_all (\<lambda>pg. 0 \<le> pin_count pg) (pages s)"

text \<open>
  Calls that only pin: \<^verbatim>\<open>FetchPage\<close> and \<^verbatim>\<open>NewPage\<close>. As long as nothing else
  was called, the replacer has no evictable frame and every entry of the page table
  took its frame from the free list.
\<close>

definition fetch_or_new :: "op \<Rightarrow> bool" where
  "fetch_or_new x = (case x of FetchPage _ \<Rightarrow> True | NewPage \<Rightarrow> True | _ \<Rightarrow> False)"

definition nothing_released :: "bpm \<Rightarrow> bool" where
  "nothing_released s \<longleftrightarrow>
     evictable (replacer s) = [] \<and>
     length (free_list s) + length (page_table s) \<le> pool_size s"

text \<open>
  The loop of \<^verbatim>\<open>FlushAllPagesImpl\<close> has nothing to write for frame \<open>i\<close>: the frame
  holds the invalid id, or its page id is not in the page table, or the frame the page
  table gives for that id is clean.
\<close>

definition frame_flushed :: "nat \<Rightarrow> bpm \<Rightarrow> bool" where
  "frame_flushed i s \<longleftrightarrow>
     page_id (pages s ! i) = INVALID_PAGE_ID \<or>
     (case pt_find (page_table s) (page_id (pages s ! i)) of
        None \<Rightarrow> True
      | Some g \<Rightarrow> \<not> is_dirty (page_at s g))"

section \<open>Concrete states\<close>

text \<open>
  A disk with three pages of distinct bytes whose next free identifier is 3, and the
  states that the call sequences below reach from the constructor. Page identifiers on
  a page-table hit are below the pool size, so that the argument of the \<^verbatim>\<open>Pin\<close>
  call is a frame index of the pool in every sequence.
\<close>

definition example_disk :: disk_state where
  "example_disk =
     \<lparr>stored = [0 \<mapsto> replicate PAGE_SIZE 10, 1 \<mapsto> replicate PAGE_SIZE 11,
                2 \<mapsto> replicate PAGE_SIZE 12],
      next_page_id = 3, disk_log = []\<rparr>"

text \<open>Page 0 in frame 0 with pin count 1; with pin count 0 and dirty.\<close>

definition two_pins_one_release :: bpm where
  "two_pins_one_release =
     run [FetchPage 0, FetchPage 0, UnpinPage 0 False] (BufferPoolManager 2 example_disk)"

definition released_page :: bpm where
  "released_page = run [FetchPage 0, UnpinPage 0 True] (BufferPoolManager 2 example_disk)"

text \<open>Page 0 pinned in frame 0, page 1 unpinned in frame 1, the free list empty.\<close>

definition pinned_and_released :: bpm where
  "pinned_and_released =
     run [FetchPage 0, FetchPage 1, UnpinPage 1 False] (BufferPoolManager 2 example_disk)"

text \<open>Page 0 dirty with bytes of the caller; in a pool of two frames, and of one.\<close>

definition two_dirty_pages :: bpm where
  "two_dirty_pages =
     run [FetchPage 0, FetchPage 1, WriteData 0 (replicate PAGE_SIZE 7), UnpinPage 0 True,
          UnpinPage 1 False]
       (BufferPoolManager 2 example_disk)"

definition one_dirty_page :: bpm where
  "one_dirty_page =
     run [FetchPage 0, WriteData 0 (replicate PAGE_SIZE 7), UnpinPage 0 True]
       (BufferPoolManager 1 example_disk)"

text \<open>Two pages pinned in a pool of two frames, nothing unpinned.\<close>

definition pool_filled :: bpm where
  "pool_filled = run [FetchPage 0, NewPage] (BufferPoolManager 2 example_disk)"

text \<open>One page fetched once.\<close>

definition one_fetch :: bpm where
  "one_fetch = run [FetchPage 1] (BufferPoolManager 2 example_disk)"

text \<open>
  A page fetched, unpinned and deleted in a pool of one frame: the frame is back on the
  free list, and \<^verbatim>\<open>DeletePageImpl\<close> has made no call to the replacer.
\<close>

definition freed_but_evictable :: bpm where
  "freed_but_evictable =
     run [FetchPage 0, UnpinPage 0 False, DeletePage 0] (BufferPoolManager 1 example_disk)"

text \<open>
  A clean page evicted by \<^verbatim>\<open>FetchPage\<close>; the same, and then the evicted page
  fetched again, written and unpinned dirty.
\<close>

definition stale_entry :: bpm where
  "stale_entry = run [FetchPage 0, UnpinPage 0 False, FetchPage 1] (BufferPoolManager 1 example_disk)"

definition dirty_on_stale_entry :: bpm where
  "dirty_on_stale_entry =
     run [FetchPage 0, UnpinPage 0 False, FetchPage 1, UnpinPage 1 False, FetchPage 0,
          WriteData 0 (replicate PAGE_SIZE 99), UnpinPage 0 True]
       (BufferPoolManager 1 example_disk)"

text \<open>A page unpinned and fetched again, and the pool filled.\<close>

definition pinned_but_evictable :: bpm where
  "pinned_but_evictable =
     run [FetchPage 1, UnpinPage 1 False, FetchPage 1, FetchPage 2]
       (BufferPoolManager 2 example_disk)"

text \<open>
  A clean page evicted by \<^verbatim>\<open>FetchPage\<close> and then deleted, the page that took its
  frame fetched again and unpinned dirty.
\<close>

definition dirty_free_frame :: bpm where
  "dirty_free_frame =
     run [FetchPage 1, UnpinPage 1 False, FetchPage 0, UnpinPage 0 False, DeletePage 1,
          FetchPage 0, UnpinPage 0 True]
       (BufferPoolManager 1 example_disk)"

section \<open>Frame indices and pin counts in reachable states\<close>

text \<open>
  The fields each piece of the operations leaves alone, then the two invariants of
  the states reached from the constructor: frame indices are valid, pin counts are not
  negative.
\<close>

lemma set_page_fields [simp]:
  "pool_size (set_page f g s) = pool_size s"
  "page_table (set_page f g s) = page_table s"
  "free_list (set_page f g s) = free_list s"
  "replacer (set_page f g s) = replacer s"
  "disk_manager (set_page f g s) = disk_manager s"
  "length (pages (set_page f g s)) = length (pages s)"
  by (simp_all add: set_page_def)

lemma page_at_set_page_same:
  "0 \<le> f \<Longrightarrow> nat f < length (pages s) \<Longrightarrow> page_at (set_page f g s) f = g (page_at s f)"
  by (simp add: page_at_def set_page_def)

lemma page_at_set_page_other:
  "nat f' \<noteq> nat f \<Longrightarrow> page_at (set_page f g s) f' = page_at s f'"
  by (simp add: page_at_def set_page_def)

lemma Flush_fields [simp]:
  "pool_size (snd (FlushPageImplWithoutLock pid s)) = pool_size s"
  "page_table (snd (FlushPageImplWithoutLock pid s)) = page_table s"
  "free_list (snd (FlushPageImplWithoutLock pid s)) = free_list s"
  "replacer (snd (FlushPageImplWithoutLock pid s)) = replacer s"
  "length (pages (snd (FlushPageImplWithoutLock pid s))) = length (pages s)"
  by (simp_all add: FlushPageImplWithoutLock_def split: option.splits)

lemma valid_frames_Flush:
  "valid_frames s \<Longrightarrow> valid_frames (snd (FlushPageImplWithoutLock pid s))"
  by (simp add: valid_frames_def)

lemma fetch_write_back_fields [simp]:
  "pool_size (fetch_write_back f s) = pool_size s"
  "free_list (fetch_write_back f s) = free_list s"
  "replacer (fetch_write_back f s) = replacer s"
  "length (pages (fetch_write_back f s)) = length (pages s)"
  "page_table (fetch_write_back f s) =
     (if is_dirty (page_at s f) then pt_erase (page_id (page_at s f)) (page_table s)
      else page_table s)"
  by (simp_all add: fetch_write_back_def Let_def)

lemma fetch_load_fields [simp]:
  "pool_size (fetch_load pid f s) = pool_size s"
  "free_list (fetch_load pid f s) = free_list s"
  "replacer (fetch_load pid f s) = replacer s"
  "length (pages (fetch_load pid f s)) = length (pages s)"
  "page_table (fetch_load pid f s) = pt_insert pid f (page_table s)"
  by (simp_all add: fetch_load_def Let_def ReadPage_def split: prod.splits)

lemma new_write_back_fields [simp]:
  "pool_size (new_write_back f s) = pool_size s"
  "free_list (new_write_back f s) = free_list s"
  "replacer (new_write_back f s) = replacer s"
  "length (pages (new_write_back f s)) = length (pages s)"
  "page_table (new_write_back f s) = pt_erase (page_id (page_at s f)) (page_table s)"
  by (simp_all add: new_write_back_def Let_def)

lemma set_pt_insert: "set (pt_insert pid f t) \<subseteq> insert (pid, f) (set t)"
  by (auto simp: pt_insert_def)

lemma set_pt_erase: "set (pt_erase pid t) \<subseteq> set t"
  by (auto simp: pt_erase_def)

lemma valid_pt_insert:
  "list_all (valid_frame n) (map snd t) \<Longrightarrow> valid_frame n f \<Longrightarrow>
   list_all (valid_frame n) (map snd (pt_insert pid f t))"
  by (simp add: pt_insert_def)

lemma valid_pt_erase:
  "list_all (valid_frame n) (map snd t) \<Longrightarrow> list_all (valid_frame n) (map snd (pt_erase pid t))"
  by (induction t) (simp_all add: pt_erase_def)

lemma valid_pt_find:
  "list_all (valid_frame n) (map snd t) \<Longrightarrow> pt_find t pid = Some f \<Longrightarrow> valid_frame n f"
  by (auto simp: pt_find_def list_all_iff dest!: map_of_SomeD)

lemma valid_frames_fetch_into:
  "valid_frames s \<Longrightarrow> valid_frame (pool_size s) f \<Longrightarrow> valid_frames (fetch_into pid f s)"
  by (simp add: valid_frames_def fetch_into_def valid_pt_insert valid_pt_erase)

lemma valid_frames_pop:
  "valid_frames s \<Longrightarrow> free_list s \<noteq> [] \<Longrightarrow>
   valid_frames (s\<lparr>free_list := tl (free_list s)\<rparr>) \<and> valid_frame (pool_size s) (hd (free_list s))"
  by (cases "free_list s") (simp_all add: valid_frames_def)

lemma valid_frames_Victim:
  "valid_frames s \<Longrightarrow> Victim (replacer s) = (v, r) \<Longrightarrow>
   valid_frames (s\<lparr>replacer := r\<rparr>) \<and> (\<forall>f. v = Some f \<longrightarrow> valid_frame (pool_size s) f)"
  by (cases "evictable (replacer s)") (auto simp: valid_frames_def Victim_def)

lemma valid_frames_Fetch:
  assumes "valid_frames s"
  shows "valid_frames (snd (FetchPageImpl pid s))"
proof (cases "pt_find (page_table s) pid")
  case (Some f)
  with assms show ?thesis
    by (simp add: FetchPageImpl_def valid_frames_def Pin_def list_all_iff)
next
  case None
  show ?thesis
  proof (cases "free_list s = []")
    case False
    with None valid_frames_pop [OF assms False] show ?thesis
      by (simp add: FetchPageImpl_def valid_frames_fetch_into)
  next
    case True
    obtain v r where V: "Victim (replacer s) = (v, r)" by (cases "Victim (replacer s)")
    with None True valid_frames_Victim [OF assms V] show ?thesis
      by (cases v) (simp_all add: FetchPageImpl_def valid_frames_fetch_into)
  qed
qed

lemma valid_frames_Unpin:
  assumes "valid_frames s"
  shows "valid_frames (snd (UnpinPageImpl pid dirty s))"
proof (cases "pt_find (page_table s) pid")
  case None
  with assms show ?thesis by (simp add: UnpinPageImpl_def)
next
  case (Some f)
  with assms have "valid_frame (pool_size s) f"
    by (auto simp: valid_frames_def intro: valid_pt_find)
  with assms Some show ?thesis
    by (simp add: UnpinPageImpl_def valid_frames_def Unpin_def Let_def)
qed

lemma new_into_fields [simp]:
  "pool_size (snd (new_into f s)) = pool_size s"
  "free_list (snd (new_into f s)) = free_list s"
  "replacer (snd (new_into f s)) = replacer s"
  "length (pages (snd (new_into f s))) = length (pages s)"
  "page_table (snd (new_into f s)) = pt_insert (next_page_id (disk_manager s)) f (page_table s)"
  "fst (new_into f s) = next_page_id (disk_manager s)"
  by (simp_all add: new_into_def Let_def AllocatePage_def split: prod.splits)

lemma valid_frames_new_into:
  "valid_frames s \<Longrightarrow> valid_frame (pool_size s) f \<Longrightarrow> valid_frames (snd (new_into f s))"
  by (simp add: valid_frames_def valid_pt_insert)

lemma valid_frames_erase:
  "valid_frames s \<Longrightarrow> valid_frames (s\<lparr>page_table := pt_erase pid (page_table s)\<rparr>)"
  by (simp add: valid_frames_def valid_pt_erase)

lemma valid_frames_new_write_back:
  "valid_frames s \<Longrightarrow> valid_frames (new_write_back f s)"
  by (simp add: valid_frames_def valid_pt_erase)

lemma NewPageImpl_free:
  "free_list s \<noteq> [] \<Longrightarrow>
   NewPageImpl s =
     (Some (next_page_id (disk_manager s), hd (free_list s)),
      snd (new_into (hd (free_list s)) (s\<lparr>free_list := tl (free_list s)\<rparr>)))"
  by (simp add: NewPageImpl_def Let_def case_prod_beta)

lemma NewPageImpl_victim:
  "free_list s = [] \<Longrightarrow> Victim (replacer s) = (Some f, r) \<Longrightarrow>
   NewPageImpl s =
     (Some (next_page_id (disk_manager (new_write_back f (s\<lparr>replacer := r\<rparr>))), f),
      snd (new_into f (new_write_back f (s\<lparr>replacer := r\<rparr>))))"
  by (simp add: NewPageImpl_def Let_def case_prod_beta)

lemma NewPageImpl_none:
  "free_list s = [] \<Longrightarrow> Victim (replacer s) = (None, r) \<Longrightarrow>
   NewPageImpl s = (None, s\<lparr>replacer := r\<rparr>)"
  by (simp add: NewPageImpl_def)

lemma valid_frames_NewPage:
  assumes "valid_frames s"
  shows "valid_frames (snd (NewPageImpl s))"
proof (cases "free_list s = []")
  case False
  with valid_frames_pop [OF assms False] show ?thesis
    by (simp add: NewPageImpl_free valid_frames_new_into)
next
  case True
  obtain v r where V: "Victim (replacer s) = (v, r)" by (cases "Victim (replacer s)")
  show ?thesis
  proof (cases v)
    case None
    with V True valid_frames_Victim [OF assms V] show ?thesis
      by (simp add: NewPageImpl_none)
  next
    case (Some f)
    with V True valid_frames_Victim [OF assms V] show ?thesis
      by (simp add: NewPageImpl_victim valid_frames_new_into valid_frames_new_write_back)
  qed
qed

lemma valid_frames_Delete:
  assumes "valid_frames s"
  shows "valid_frames (snd (DeletePageImpl pid s))"
proof (cases "pt_find (page_table s) pid")
  case None
  with assms show ?thesis by (simp add: DeletePageImpl_def)
next
  case (Some f)
  with assms have "valid_frame (pool_size s) f"
    by (auto simp: valid_frames_def intro: valid_pt_find)
  with assms Some show ?thesis
    by (simp add: DeletePageImpl_def valid_frames_def Let_def DeallocatePage_def valid_pt_erase)
qed

lemma valid_frames_flush_frame:
  "valid_frames s \<Longrightarrow> valid_frames (flush_frame i s)"
  by (simp add: flush_frame_def Let_def valid_frames_Flush)

lemma valid_frames_flush_frames:
  "valid_frames s \<Longrightarrow> valid_frames (flush_frames is s)"
  by (induction "is" arbitrary: s) (simp_all add: valid_frames_flush_frame)

lemma valid_frames_step:
  "valid_frames s \<Longrightarrow> valid_frames (step x s)"
  by (cases x)
     (simp_all add: valid_frames_Fetch valid_frames_Unpin valid_frames_Flush FlushPageImpl_def
        valid_frames_NewPage valid_frames_Delete FlushAllPagesImpl_def valid_frames_flush_frames,
      simp add: valid_frames_def)

lemma valid_frames_run:
  "valid_frames s \<Longrightarrow> valid_frames (run ops s)"
  by (induction ops arbitrary: s) (simp_all add: valid_frames_step)

lemma valid_frames_init: "valid_frames (BufferPoolManager n d)"
  by (simp add: valid_frames_def BufferPoolManager_def valid_frame_def list_all_iff)

lemma list_all_update:
  "list_all P xs \<Longrightarrow> (i < length xs \<Longrightarrow> P (xs ! i) \<Longrightarrow> P (g (xs ! i))) \<Longrightarrow>
   list_all P (xs[i := g (xs ! i)])"
  by (cases "i < length xs") (auto simp: list_all_length nth_list_update)

lemma pins_nonneg_fields [simp]:
  "pins_nonneg (s\<lparr>page_table := t\<rparr>) = pins_nonneg s"
  "pins_nonneg (s\<lparr>free_list := fl\<rparr>) = pins_nonneg s"
  "pins_nonneg (s\<lparr>replacer := r\<rparr>) = pins_nonneg s"
  "pins_nonneg (s\<lparr>disk_manager := d\<rparr>) = pins_nonneg s"
  by (simp_all add: pins_nonneg_def)

lemma pins_nonneg_set_page:
  "pins_nonneg s \<Longrightarrow> (0 \<le> pin_count (page_at s f) \<longrightarrow> 0 \<le> pin_count (g (page_at s f))) \<Longrightarrow>
   pins_nonneg (set_page f g s)"
  by (simp add: pins_nonneg_def set_page_def page_at_def list_all_update)

lemma pins_nonneg_Flush:
  "pins_nonneg s \<Longrightarrow> pins_nonneg (snd (FlushPageImplWithoutLock pid s))"
  by (simp add: FlushPageImplWithoutLock_def pins_nonneg_set_page split: option.splits)

lemma pins_nonneg_fetch_into:
  "pins_nonneg s \<Longrightarrow> pins_nonneg (fetch_into pid f s)"
  by (simp add: fetch_into_def fetch_load_def fetch_write_back_def Let_def ReadPage_def
        pins_nonneg_Flush pins_nonneg_set_page split: prod.splits)

lemma pins_nonneg_Fetch:
  "pins_nonneg s \<Longrightarrow> pins_nonneg (snd (FetchPageImpl pid s))"
  by (simp add: FetchPageImpl_def pins_nonneg_fetch_into pins_nonneg_set_page
           split: option.splits prod.splits)

lemma pins_nonneg_Unpin:
  "pins_nonneg s \<Longrightarrow> pins_nonneg (snd (UnpinPageImpl pid dirty s))"
  by (simp add: UnpinPageImpl_def Let_def pins_nonneg_set_page split: option.splits)

lemma pins_nonneg_new_into:
  "pins_nonneg s \<Longrightarrow> pins_nonneg (snd (new_into f s))"
  by (simp add: new_into_def Let_def AllocatePage_def pins_nonneg_set_page split: prod.splits)

lemma pins_nonneg_new_write_back:
  "pins_nonneg s \<Longrightarrow> pins_nonneg (new_write_back f s)"
  by (simp add: new_write_back_def Let_def pins_nonneg_Flush)

lemma pins_nonneg_NewPage:
  "pins_nonneg s \<Longrightarrow> pins_nonneg (snd (NewPageImpl s))"
  by (cases "free_list s = []"; cases "Victim (replacer s)"; cases "fst (Victim (replacer s))")
     (simp_all add: NewPageImpl_free NewPageImpl_victim NewPageImpl_none
        pins_nonneg_new_into pins_nonneg_new_write_back)

lemma pins_nonneg_Delete:
  "pins_nonneg s \<Longrightarrow> pins_nonneg (snd (DeletePageImpl pid s))"
  by (simp add: DeletePageImpl_def Let_def pins_nonneg_set_page split: option.splits)

lemma pins_nonneg_flush_frames:
  "pins_nonneg s \<Longrightarrow> pins_nonneg (flush_frames is s)"
  by (induction "is" arbitrary: s) (simp_all add: flush_frame_def Let_def pins_nonneg_Flush)

lemma pins_nonneg_step:
  "pins_nonneg s \<Longrightarrow> pins_nonneg (step x s)"
  by (cases x)
     (simp_all add: pins_nonneg_Fetch pins_nonneg_Unpin pins_nonneg_Flush FlushPageImpl_def
        pins_nonneg_NewPage pins_nonneg_Delete FlushAllPagesImpl_def pins_nonneg_flush_frames
        pins_nonneg_set_page)

lemma pins_nonneg_run:
  "pins_nonneg s \<Longrightarrow> pins_nonneg (run ops s)"
  by (induction ops arbitrary: s) (simp_all add: pins_nonneg_step)

lemma pins_nonneg_init: "pins_nonneg (BufferPoolManager n d)"
  by (simp add: pins_nonneg_def BufferPoolManager_def fresh_page_def list_all_iff)

lemma pins_nonneg_reachable: "pins_nonneg (run ops (BufferPoolManager n d))"
  by (simp add: pins_nonneg_run pins_nonneg_init)

lemma valid_frames_reachable: "valid_frames (run ops (BufferPoolManager n d))"
  by (simp add: valid_frames_run valid_frames_init)

lemma valid_frames_find:
  "valid_frames s \<Longrightarrow> pt_find (page_table s) pid = Some f \<Longrightarrow> 0 \<le> f \<and> nat f < length (pages s)"
  using valid_pt_find [of "pool_size s" "page_table s" pid f]
  by (simp add: valid_frames_def valid_frame_def)

text \<open>
  The unfoldings with which the simplifier runs a sequence of calls on a concrete
  state.
\<close>

lemmas manager_defs =
  BufferPoolManager_def FetchPageImpl_def fetch_into_def fetch_write_back_def fetch_load_def
  UnpinPageImpl_def FlushPageImpl_def FlushPageImplWithoutLock_def NewPageImpl_def new_into_def
  new_write_back_def DeletePageImpl_def FlushAllPagesImpl_def flush_frame_def
  page_at_def set_page_def pt_find_def pt_insert_def pt_erase_def
  ReadPage_def WritePage_def AllocatePage_def DeallocatePage_def Pin_def Unpin_def Victim_def
  ResetMemory_def fresh_page_def INVALID_PAGE_ID_def example_disk_def Let_def

lemmas eval_defs = manager_defs valid_frames_def valid_frame_def numeral_2_eq_2

section \<open>Unpin, delete, and fetch of a resident page\<close>

text \<open>
  Claim C5. \<^verbatim>\<open>UnpinPageImpl\<close> in a state reached by any sequence of calls: it
  returns false and changes nothing when the page is not in the page table or the pin
  count of its frame is zero; otherwise it returns true, the pin count of the frame is
  one less, the dirty flag is the old flag or the caller's, and the replacer is told
  \<^verbatim>\<open>Unpin(frameId)\<close> exactly when the new pin count is zero. No frame of a
  reachable state has a negative pin count.
\<close>
theorem unpin_page:
  assumes "s = run ops (BufferPoolManager n d)"
  shows "(pt_find (page_table s) pid = None \<longrightarrow> UnpinPageImpl pid dirty s = (False, s)) \<and>
    (\<forall>f. pt_find (page_table s) pid = Some f \<and> pin_count (page_at s f) = 0 \<longrightarrow>
          UnpinPageImpl pid dirty s = (False, s)) \<and>
    (\<forall>f. pt_find (page_table s) pid = Some f \<and> pin_count (page_at s f) \<noteq> 0 \<longrightarrow>
          fst (UnpinPageImpl pid dirty s) \<and>
          pin_count (page_at (snd (UnpinPageImpl pid dirty s)) f) = pin_count (page_at s f) - 1 \<and>
          is_dirty (page_at (snd (UnpinPageImpl pid dirty s)) f) = (is_dirty (page_at s f) \<or> dirty) \<and>
          replacer (snd (UnpinPageImpl pid dirty s)) =
            (if pin_count (page_at s f) - 1 = 0 then Unpin f (replacer s) else replacer s)) \<and>
    (\<forall>i < length (pages s). 0 \<le> pin_count (pages s ! i))"
proof -
  have v: "valid_frames s" and p: "pins_nonneg s"
    using assms by (simp_all add: valid_frames_reachable pins_nonneg_reachable)
  have "pt_find (page_table s) pid = None \<longrightarrow> UnpinPageImpl pid dirty s = (False, s)"
    by (simp add: UnpinPageImpl_def)
  moreover have "\<forall>f. pt_find (page_table s) pid = Some f \<and> pin_count (page_at s f) = 0 \<longrightarrow>
          UnpinPageImpl pid dirty s = (False, s)"
    by (simp add: UnpinPageImpl_def)
  moreover have "\<forall>f. pt_find (page_table s) pid = Some f \<and> pin_count (page_at s f) \<noteq> 0 \<longrightarrow>
          fst (UnpinPageImpl pid dirty s) \<and>
          pin_count (page_at (snd (UnpinPageImpl pid dirty s)) f) = pin_count (page_at s f) - 1 \<and>
          is_dirty (page_at (snd (UnpinPageImpl pid dirty s)) f) = (is_dirty (page_at s f) \<or> dirty) \<and>
          replacer (snd (UnpinPageImpl pid dirty s)) =
            (if pin_count (page_at s f) - 1 = 0 then Unpin f (replacer s) else replacer s)"
  proof (intro allI impI, elim conjE)
    fix f
    assume f: "pt_find (page_table s) pid = Some f" and nz: "pin_count (page_at s f) \<noteq> 0"
    from valid_frames_find [OF v f] have ok: "0 \<le> f" "nat f < length (pages s)" by simp_all
    show "fst (UnpinPageImpl pid dirty s) \<and>
          pin_count (page_at (snd (UnpinPageImpl pid dirty s)) f) = pin_count (page_at s f) - 1 \<and>
          is_dirty (page_at (snd (UnpinPageImpl pid dirty s)) f) = (is_dirty (page_at s f) \<or> dirty) \<and>
          replacer (snd (UnpinPageImpl pid dirty s)) =
            (if pin_count (page_at s f) - 1 = 0 then Unpin f (replacer s) else replacer s)"
      using f nz ok by (simp add: UnpinPageImpl_def Let_def page_at_set_page_same)
         (simp add: page_at_def set_page_def)
  qed
  moreover have "\<forall>i < length (pages s). 0 \<le> pin_count (pages s ! i)"
    using p by (simp add: pins_nonneg_def list_all_length)
  ultimately show ?thesis by blast
qed

theorem unpin_page_witness:
  "pt_find (page_table two_pins_one_release) 7 = None \<and>
   UnpinPageImpl 7 True two_pins_one_release = (False, two_pins_one_release) \<and>
   pt_find (page_table released_page) 0 = Some 0 \<and>
   pin_count (page_at released_page 0) = 0 \<and>
   UnpinPageImpl 0 False released_page = (False, released_page) \<and>
   pt_find (page_table two_pins_one_release) 0 = Some 0 \<and>
   pin_count (page_at two_pins_one_release 0) = 1 \<and>
   \<not> is_dirty (page_at two_pins_one_release 0) \<and>
   fst (UnpinPageImpl 0 True two_pins_one_release) \<and>
   pin_count (page_at (snd (UnpinPageImpl 0 True two_pins_one_release)) 0) = 0 \<and>
   is_dirty (page_at (snd (UnpinPageImpl 0 True two_pins_one_release)) 0) \<and>
   replacer (snd (UnpinPageImpl 0 True two_pins_one_release)) =
     Unpin 0 (replacer two_pins_one_release) \<and>
   length (pages two_pins_one_release) = 2 \<and>
   0 \<le> pin_count (pages two_pins_one_release ! 1)"
proof -
  have h1: "pt_find (page_table two_pins_one_release) 7 = None"
    and h2: "pt_find (page_table two_pins_one_release) 0 = Some 0"
    and h3: "pin_count (page_at two_pins_one_release 0) = 1"
    and h4: "\<not> is_dirty (page_at two_pins_one_release 0)"
    and h5: "length (pages two_pins_one_release) = 2"
    by (simp_all add: two_pins_one_release_def eval_defs)
  have h6: "pt_find (page_table released_page) 0 = Some 0"
    and h7: "pin_count (page_at released_page 0) = 0"
    by (simp_all add: released_page_def eval_defs)
  show ?thesis
    using unpin_page [OF two_pins_one_release_def, of 7 True]
      unpin_page [OF two_pins_one_release_def, of 0 True]
      unpin_page [OF released_page_def, of 0 False]
      h1 h2 h3 h4 h5 h6 h7
    by simp
qed

lemma pt_find_erase [simp]:
  "pt_find (pt_erase pid t) q = (if q = pid then None else pt_find t q)"
  by (induction t) (auto simp: pt_find_def pt_erase_def)

text \<open>
  Claim C6. \<^verbatim>\<open>DeletePageImpl\<close>: false and no change for a resident page with a
  positive pin count; true and no change for a page that is not resident; for a resident
  page that is not pinned, true, the entry is gone, the frame is zeroed with the invalid
  id, pin count 0 and clean, the frame is appended to the free list, and
  \<^verbatim>\<open>DeallocatePage\<close> is called for the page id.
\<close>
theorem delete_page:
  assumes "valid_frames s"
  shows "(\<forall>f. pt_find (page_table s) pid = Some f \<and> pin_count (page_at s f) > 0 \<longrightarrow>
            DeletePageImpl pid s = (False, s)) \<and>
    (pt_find (page_table s) pid = None \<longrightarrow> DeletePageImpl pid s = (True, s)) \<and>
    (\<forall>f. pt_find (page_table s) pid = Some f \<and> \<not> pin_count (page_at s f) > 0 \<longrightarrow>
          fst (DeletePageImpl pid s) \<and>
          pt_find (page_table (snd (DeletePageImpl pid s))) pid = None \<and>
          page_at (snd (DeletePageImpl pid s)) f =
            \<lparr>data = replicate PAGE_SIZE 0, page_id = INVALID_PAGE_ID, pin_count = 0,
             is_dirty = False\<rparr> \<and>
          free_list (snd (DeletePageImpl pid s)) = free_list s @ [f] \<and>
          disk_log (disk_manager (snd (DeletePageImpl pid s))) =
            disk_log (disk_manager s) @ [DiskDeallocate pid])"
proof (intro conjI allI impI)
  fix f
  assume "pt_find (page_table s) pid = Some f \<and> 0 < pin_count (page_at s f)"
  then show "DeletePageImpl pid s = (False, s)"
    by (simp add: DeletePageImpl_def)
next
  assume "pt_find (page_table s) pid = None"
  then show "DeletePageImpl pid s = (True, s)"
    by (simp add: DeletePageImpl_def)
next
  fix f
  assume a: "pt_find (page_table s) pid = Some f \<and> \<not> 0 < pin_count (page_at s f)"
  with valid_frames_find [OF assms, of pid f] have ok: "0 \<le> f" "nat f < length (pages s)"
    by simp_all
  from a show "fst (DeletePageImpl pid s)"
    by (simp add: DeletePageImpl_def Let_def)
  from a show "pt_find (page_table (snd (DeletePageImpl pid s))) pid = None"
    by (simp add: DeletePageImpl_def Let_def)
  from a ok show "page_at (snd (DeletePageImpl pid s)) f =
            \<lparr>data = replicate PAGE_SIZE 0, page_id = INVALID_PAGE_ID, pin_count = 0,
             is_dirty = False\<rparr>"
    by (simp add: DeletePageImpl_def Let_def page_at_def set_page_def ResetMemory_def)
  from a show "free_list (snd (DeletePageImpl pid s)) = free_list s @ [f]"
    by (simp add: DeletePageImpl_def Let_def)
  from a show "disk_log (disk_manager (snd (DeletePageImpl pid s))) =
            disk_log (disk_manager s) @ [DiskDeallocate pid]"
    by (simp add: DeletePageImpl_def Let_def DeallocatePage_def)
qed

theorem delete_page_witness:
  "valid_frames pinned_and_released \<and>
   pt_find (page_table pinned_and_released) 0 = Some 0 \<and>
   pin_count (page_at pinned_and_released 0) > 0 \<and>
   DeletePageImpl 0 pinned_and_released = (False, pinned_and_released) \<and>
   pt_find (page_table pinned_and_released) 7 = None \<and>
   DeletePageImpl 7 pinned_and_released = (True, pinned_and_released) \<and>
   pt_find (page_table pinned_and_released) 1 = Some 1 \<and>
   \<not> pin_count (page_at pinned_and_released 1) > 0 \<and>
   fst (DeletePageImpl 1 pinned_and_released) \<and>
   pt_find (page_table (snd (DeletePageImpl 1 pinned_and_released))) 1 = None \<and>
   page_at (snd (DeletePageImpl 1 pinned_and_released)) 1 =
     \<lparr>data = replicate PAGE_SIZE 0, page_id = INVALID_PAGE_ID, pin_count = 0,
      is_dirty = False\<rparr> \<and>
   free_list (snd (DeletePageImpl 1 pinned_and_released)) = [1] \<and>
   disk_log (disk_manager (snd (DeletePageImpl 1 pinned_and_released))) =
     [DiskRead 0, DiskRead 1, DiskDeallocate 1]"
proof -
  have v: "valid_frames pinned_and_released"
    and h1: "pt_find (page_table pinned_and_released) 0 = Some 0"
    and h2: "pin_count (page_at pinned_and_released 0) > 0"
    and h3: "pt_find (page_table pinned_and_released) 7 = None"
    and h4: "pt_find (page_table pinned_and_released) 1 = Some 1"
    and h5: "\<not> pin_count (page_at pinned_and_released 1) > 0"
    and h6: "free_list pinned_and_released = []"
    and h7: "disk_log (disk_manager pinned_and_released) = [DiskRead 0, DiskRead 1]"
    by (simp_all add: pinned_and_released_def eval_defs)
  show ?thesis
    using delete_page [OF v, of 0] delete_page [OF v, of 7] delete_page [OF v, of 1]
      v h1 h2 h3 h4 h5 h6 h7
    by simp
qed

text \<open>
  Claim C10. \<^verbatim>\<open>FetchPageImpl\<close> of a page found in the page table: the disk manager
  (its pages and its log of calls) is as before, so are the page table, the free list
  and every other frame; the frame of the page has its pin count incremented and its
  bytes, dirty flag and page id unchanged. Only the replacer's state is not constrained.
\<close>
theorem fetch_resident:
  assumes "valid_frames s" and "pt_find (page_table s) pid = Some f"
  shows "fst (FetchPageImpl pid s) = Some f \<and>
    disk_manager (snd (FetchPageImpl pid s)) = disk_manager s \<and>
    page_table (snd (FetchPageImpl pid s)) = page_table s \<and>
    free_list (snd (FetchPageImpl pid s)) = free_list s \<and>
    pool_size (snd (FetchPageImpl pid s)) = pool_size s \<and>
    length (pages (snd (FetchPageImpl pid s))) = length (pages s) \<and>
    page_at (snd (FetchPageImpl pid s)) f =
      (page_at s f)\<lparr>pin_count := pin_count (page_at s f) + 1\<rparr> \<and>
    (\<forall>i. i \<noteq> nat f \<longrightarrow> pages (snd (FetchPageImpl pid s)) ! i = pages s ! i)"
proof -
  from valid_frames_find [OF assms] have ok: "0 \<le> f" "nat f < length (pages s)"
    by simp_all
  show ?thesis
    using assms(2) ok by (simp add: FetchPageImpl_def page_at_def set_page_def)
qed

theorem fetch_resident_witness:
  "valid_frames pinned_and_released \<and>
   pt_find (page_table pinned_and_released) 1 = Some 1 \<and>
   fst (FetchPageImpl 1 pinned_and_released) = Some 1 \<and>
   disk_manager (snd (FetchPageImpl 1 pinned_and_released)) = disk_manager pinned_and_released \<and>
   page_table (snd (FetchPageImpl 1 pinned_and_released)) = page_table pinned_and_released \<and>
   free_list (snd (FetchPageImpl 1 pinned_and_released)) = free_list pinned_and_released \<and>
   page_at (snd (FetchPageImpl 1 pinned_and_released)) 1 =
     (page_at pinned_and_released 1)\<lparr>pin_count := 1\<rparr> \<and>
   pages (snd (FetchPageImpl 1 pinned_and_released)) ! 0 = pages pinned_and_released ! 0"
proof -
  have v: "valid_frames pinned_and_released"
    and h1: "pt_find (page_table pinned_and_released) 1 = Some 1"
    and h2: "pin_count (page_at pinned_and_released 1) = 0"
    by (simp_all add: pinned_and_released_def eval_defs)
  show ?thesis
    using fetch_resident [OF v h1] v h1 h2 by simp
qed

section \<open>Flushing\<close>

lemma nth_clean_update1:
  "page_id (xs[k := (xs ! k)\<lparr>is_dirty := b\<rparr>] ! i) = page_id (xs ! i)"
  by (cases "k < length xs") (simp_all add: nth_list_update list_update_beyond)

lemma nth_clean_update2:
  "is_dirty (xs[k := (xs ! k)\<lparr>is_dirty := False\<rparr>] ! i) \<Longrightarrow> is_dirty (xs ! i)"
  by (cases "k < length xs") (simp_all add: nth_list_update list_update_beyond split: if_splits)

lemma Flush_page_id [simp]:
  "page_id (pages (snd (FlushPageImplWithoutLock pid s)) ! i) = page_id (pages s ! i)"
  by (simp add: FlushPageImplWithoutLock_def set_page_def nth_clean_update1 split: option.splits)

lemma Flush_stays_clean:
  "\<not> is_dirty (page_at s g) \<Longrightarrow> \<not> is_dirty (page_at (snd (FlushPageImplWithoutLock pid s)) g)"
  by (auto simp: FlushPageImplWithoutLock_def set_page_def page_at_def split: option.splits
           dest: nth_clean_update2)

lemma Flush_clean:
  "valid_frames s \<Longrightarrow> pt_find (page_table s) pid = Some f \<Longrightarrow>
   \<not> is_dirty (page_at (snd (FlushPageImplWithoutLock pid s)) f)"
  using valid_frames_find [of s pid f]
  by (simp add: FlushPageImplWithoutLock_def page_at_def set_page_def)

lemma Flush_noop:
  "pt_find (page_table s) pid = None \<or>
   (\<exists>f. pt_find (page_table s) pid = Some f \<and> \<not> is_dirty (page_at s f)) \<Longrightarrow>
   snd (FlushPageImplWithoutLock pid s) = s"
  by (auto simp: FlushPageImplWithoutLock_def)

lemma flush_frame_fields [simp]:
  "pool_size (flush_frame i s) = pool_size s"
  "page_table (flush_frame i s) = page_table s"
  "page_id (pages (flush_frame i s) ! j) = page_id (pages s ! j)"
  by (simp_all add: flush_frame_def Let_def)

lemma flush_frames_pool_size [simp]: "pool_size (flush_frames is s) = pool_size s"
  by (induction "is" arbitrary: s) simp_all

lemma flush_frame_stays_clean:
  "\<not> is_dirty (page_at s g) \<Longrightarrow> \<not> is_dirty (page_at (flush_frame i s) g)"
  by (simp add: flush_frame_def Let_def Flush_stays_clean)

lemma frame_flushed_after:
  "valid_frames s \<Longrightarrow> frame_flushed i (flush_frame i s)"
  unfolding frame_flushed_def
  by (auto simp: flush_frame_def Let_def Flush_clean split: option.splits)

lemma frame_flushed_kept:
  "frame_flushed i s \<Longrightarrow> frame_flushed i (flush_frame j s)"
  unfolding frame_flushed_def
  by (auto simp: flush_frame_stays_clean split: option.splits)

lemma frame_flushed_kept_all:
  "frame_flushed i s \<Longrightarrow> frame_flushed i (flush_frames js s)"
  by (induction js arbitrary: s) (simp_all add: frame_flushed_kept)

lemma flush_frames_flushes:
  "valid_frames s \<Longrightarrow> i \<in> set js \<Longrightarrow> frame_flushed i (flush_frames js s)"
proof (induction js arbitrary: s)
  case Nil
  then show ?case by simp
next
  case (Cons j js)
  show ?case
  proof (cases "i = j")
    case True
    with Cons.prems show ?thesis
      by (simp add: frame_flushed_after frame_flushed_kept_all)
  next
    case False
    with Cons show ?thesis
      by (simp add: valid_frames_flush_frame)
  qed
qed

lemma flush_frame_noop:
  "frame_flushed i s \<Longrightarrow> flush_frame i s = s"
  unfolding frame_flushed_def flush_frame_def Let_def
  by (auto simp: Flush_noop split: option.splits)

lemma flush_frames_noop:
  "\<forall>i \<in> set js. frame_flushed i s \<Longrightarrow> flush_frames js s = s"
  by (induction js) (simp_all add: flush_frame_noop)

lemma FlushAll_twice:
  "valid_frames s \<Longrightarrow> FlushAllPagesImpl (FlushAllPagesImpl s) = FlushAllPagesImpl s"
  by (simp add: FlushAllPagesImpl_def flush_frames_noop flush_frames_flushes)

text \<open>
  Claim C7. \<^verbatim>\<open>FlushPageImpl\<close> of a resident page whose frame is dirty calls
  \<^verbatim>\<open>WritePage\<close> once with the bytes of the frame and clears the flag; for a resident
  page whose frame is clean it changes nothing; a second flush of the same page changes
  nothing; and \<^verbatim>\<open>FlushAllPagesImpl\<close> run twice in a row leaves the state of the
  first run, the log of the disk manager included: the second run writes nothing.
\<close>
theorem flush_page:
  assumes "valid_frames s"
  shows "(\<forall>f. pt_find (page_table s) pid = Some f \<and> is_dirty (page_at s f) \<longrightarrow>
            fst (FlushPageImpl pid s) \<and>
            disk_log (disk_manager (snd (FlushPageImpl pid s))) =
              disk_log (disk_manager s) @ [DiskWrite pid (data (page_at s f))] \<and>
            stored (disk_manager (snd (FlushPageImpl pid s))) pid = Some (data (page_at s f)) \<and>
            \<not> is_dirty (page_at (snd (FlushPageImpl pid s)) f)) \<and>
    (\<forall>f. pt_find (page_table s) pid = Some f \<and> \<not> is_dirty (page_at s f) \<longrightarrow>
            FlushPageImpl pid s = (True, s)) \<and>
    FlushPageImpl pid (snd (FlushPageImpl pid s)) =
      (fst (FlushPageImpl pid s), snd (FlushPageImpl pid s)) \<and>
    FlushAllPagesImpl (FlushAllPagesImpl s) = FlushAllPagesImpl s \<and>
    disk_log (disk_manager (FlushAllPagesImpl (FlushAllPagesImpl s))) =
      disk_log (disk_manager (FlushAllPagesImpl s))"
proof -
  have dirty: "\<forall>f. pt_find (page_table s) pid = Some f \<and> is_dirty (page_at s f) \<longrightarrow>
            fst (FlushPageImpl pid s) \<and>
            disk_log (disk_manager (snd (FlushPageImpl pid s))) =
              disk_log (disk_manager s) @ [DiskWrite pid (data (page_at s f))] \<and>
            stored (disk_manager (snd (FlushPageImpl pid s))) pid = Some (data (page_at s f)) \<and>
            \<not> is_dirty (page_at (snd (FlushPageImpl pid s)) f)"
    using Flush_clean [OF assms, of pid]
    by (simp add: FlushPageImpl_def) (simp add: FlushPageImplWithoutLock_def WritePage_def)
  have clean: "\<forall>f. pt_find (page_table s) pid = Some f \<and> \<not> is_dirty (page_at s f) \<longrightarrow>
            FlushPageImpl pid s = (True, s)"
    by (simp add: FlushPageImpl_def FlushPageImplWithoutLock_def)
  have again: "FlushPageImpl pid (snd (FlushPageImpl pid s)) =
      (fst (FlushPageImpl pid s), snd (FlushPageImpl pid s))"
  proof (cases "pt_find (page_table s) pid")
    case None
    then show ?thesis
      by (simp add: FlushPageImpl_def FlushPageImplWithoutLock_def)
  next
    case (Some f)
    have "\<not> is_dirty (page_at (snd (FlushPageImplWithoutLock pid s)) f)"
      using Flush_clean [OF assms Some] .
    moreover have "fst (FlushPageImplWithoutLock pid s)"
      using Some by (simp add: FlushPageImplWithoutLock_def)
    ultimately show ?thesis
      using Some
      by (simp add: FlushPageImpl_def FlushPageImplWithoutLock_def [of pid "snd (FlushPageImplWithoutLock pid s)"])
  qed
  have twice: "FlushAllPagesImpl (FlushAllPagesImpl s) = FlushAllPagesImpl s"
    using assms by (rule FlushAll_twice)
  show ?thesis
    by (rule conjI [OF dirty conjI [OF clean conjI [OF again conjI [OF twice]]]])
       (simp add: twice)
qed

theorem flush_page_witness:
  "valid_frames two_dirty_pages \<and>
   pt_find (page_table two_dirty_pages) 0 = Some 0 \<and> is_dirty (page_at two_dirty_pages 0) \<and>
   fst (FlushPageImpl 0 two_dirty_pages) \<and>
   disk_log (disk_manager (snd (FlushPageImpl 0 two_dirty_pages))) =
     [DiskRead 0, DiskRead 1, DiskWrite 0 (replicate PAGE_SIZE 7)] \<and>
   stored (disk_manager (snd (FlushPageImpl 0 two_dirty_pages))) 0 = Some (replicate PAGE_SIZE 7) \<and>
   \<not> is_dirty (page_at (snd (FlushPageImpl 0 two_dirty_pages)) 0) \<and>
   pt_find (page_table two_dirty_pages) 1 = Some 1 \<and> \<not> is_dirty (page_at two_dirty_pages 1) \<and>
   FlushPageImpl 1 two_dirty_pages = (True, two_dirty_pages) \<and>
   disk_log (disk_manager (FlushAllPagesImpl two_dirty_pages)) =
     [DiskRead 0, DiskRead 1, DiskWrite 0 (replicate PAGE_SIZE 7)] \<and>
   disk_log (disk_manager (FlushAllPagesImpl (FlushAllPagesImpl two_dirty_pages))) =
     [DiskRead 0, DiskRead 1, DiskWrite 0 (replicate PAGE_SIZE 7)]"
proof -
  have v: "valid_frames two_dirty_pages"
    and h1: "pt_find (page_table two_dirty_pages) 0 = Some 0"
    and h2: "is_dirty (page_at two_dirty_pages 0)"
    and h3: "data (page_at two_dirty_pages 0) = replicate PAGE_SIZE 7"
    and h4: "pt_find (page_table two_dirty_pages) 1 = Some 1"
    and h5: "\<not> is_dirty (page_at two_dirty_pages 1)"
    and h6: "disk_log (disk_manager two_dirty_pages) = [DiskRead 0, DiskRead 1]"
    and h7: "disk_log (disk_manager (FlushAllPagesImpl two_dirty_pages)) =
       [DiskRead 0, DiskRead 1, DiskWrite 0 (replicate PAGE_SIZE 7)]"
    by (simp_all add: two_dirty_pages_def eval_defs)
  show ?thesis
    using flush_page [OF v, of 0] flush_page [OF v, of 1] v h1 h2 h3 h4 h5 h6 h7
    by simp
qed

section \<open>A pool with every frame pinned\<close>

lemma length_pt_insert: "length (pt_insert pid f t) \<le> Suc (length t)"
  by (simp add: pt_insert_def)

lemma length_pt_erase: "length (pt_erase pid t) \<le> length t"
  by (simp add: pt_erase_def)

lemma length_table_fetch_into:
  "length (page_table (fetch_into pid f s)) \<le> Suc (length (page_table s))"
  using length_pt_insert [of pid f "page_table (fetch_write_back f s)"]
    length_pt_erase [of "page_id (page_at s f)" "page_table s"]
  by (simp add: fetch_into_def split: if_splits)

lemma fetch_into_fields [simp]:
  "pool_size (fetch_into pid f s) = pool_size s"
  "free_list (fetch_into pid f s) = free_list s"
  "replacer (fetch_into pid f s) = replacer s"
  "length (pages (fetch_into pid f s)) = length (pages s)"
  by (simp_all add: fetch_into_def)

lemma Victim_none:
  "evictable r = [] \<Longrightarrow> Victim r = (None, r\<lparr>replacer_log := replacer_log r @ [CallVictim]\<rparr>)"
  by (simp add: Victim_def)

lemma nothing_released_Fetch:
  assumes "nothing_released s"
  shows "nothing_released (snd (FetchPageImpl pid s))"
proof (cases "pt_find (page_table s) pid")
  case (Some f)
  with assms show ?thesis
    by (simp add: FetchPageImpl_def nothing_released_def Pin_def)
next
  case None
  show ?thesis
  proof (cases "free_list s = []")
    case True
    with assms None show ?thesis
      by (simp add: FetchPageImpl_def nothing_released_def Victim_none)
  next
    case False
    then obtain a fl where fl: "free_list s = a # fl"
      by (cases "free_list s") auto
    have "length (page_table (fetch_into pid a (s\<lparr>free_list := fl\<rparr>))) \<le> Suc (length (page_table s))"
      using length_table_fetch_into [of pid a "s\<lparr>free_list := fl\<rparr>"] by simp
    then show ?thesis
      using assms None fl by (simp add: FetchPageImpl_def nothing_released_def)
  qed
qed

lemma nothing_released_NewPage:
  assumes "nothing_released s"
  shows "nothing_released (snd (NewPageImpl s))"
proof (cases "free_list s = []")
  case True
  with assms show ?thesis
    by (simp add: NewPageImpl_none [OF True Victim_none] nothing_released_def)
next
  case False
  then obtain a fl where fl: "free_list s = a # fl"
    by (cases "free_list s") auto
  with assms False length_pt_insert [of "next_page_id (disk_manager s)" a "page_table s"]
  show ?thesis
    by (simp add: NewPageImpl_free nothing_released_def)
qed

lemma nothing_released_run:
  "nothing_released s \<Longrightarrow> list_all fetch_or_new ops \<Longrightarrow> nothing_released (run ops s)"
proof (induction ops arbitrary: s)
  case Nil
  then show ?case by simp
next
  case (Cons x xs)
  from Cons.prems have "nothing_released (step x s)"
    by (cases x) (simp_all add: fetch_or_new_def nothing_released_Fetch nothing_released_NewPage)
  with Cons show ?case by simp
qed

lemma nothing_released_init: "nothing_released (BufferPoolManager n d)"
  by (simp add: nothing_released_def BufferPoolManager_def)

lemma pool_size_run [simp]: "pool_size (run ops s) = pool_size s"
proof (induction ops arbitrary: s)
  case Nil
  then show ?case by simp
next
  case (Cons x xs)
  have "pool_size (step x s) = pool_size s"
    by (cases x)
       (simp_all add: FetchPageImpl_def fetch_into_def UnpinPageImpl_def Let_def FlushPageImpl_def
          DeletePageImpl_def FlushAllPagesImpl_def
          NewPageImpl_def case_prod_beta split: option.splits prod.splits)
  with Cons show ?case by simp
qed

lemma exhausted_step:
  assumes "evictable (replacer s) = []" and "free_list s = []" and "fetch_or_new x"
  shows "evictable (replacer (step x s)) = [] \<and> free_list (step x s) = [] \<and>
         page_table (step x s) = page_table s \<and> disk_manager (step x s) = disk_manager s"
proof (cases x)
  case (FetchPage pid)
  with assms(1,2) show ?thesis
    by (cases "pt_find (page_table s) pid")
       (simp_all add: FetchPageImpl_def Victim_none Pin_def)
next
  case NewPage
  with assms(1,2) show ?thesis
    by (simp add: NewPageImpl_none [OF assms(2) Victim_none [OF assms(1)]])
qed (use assms(3) in \<open>simp_all add: fetch_or_new_def\<close>)

lemma exhausted_run:
  "evictable (replacer s) = [] \<Longrightarrow> free_list s = [] \<Longrightarrow> list_all fetch_or_new further \<Longrightarrow>
   page_table (run further s) = page_table s \<and> disk_manager (run further s) = disk_manager s"
proof (induction further arbitrary: s)
  case Nil
  then show ?case by simp
next
  case (Cons x xs)
  from Cons.prems have "fetch_or_new x" and xs: "list_all fetch_or_new xs"
    by simp_all
  from exhausted_step [OF Cons.prems(1,2) this(1)] Cons.IH [of "step x s", OF _ _ xs]
  show ?case by simp
qed

text \<open>
  Claim C4. From the constructor with pool size \<open>n\<close>, after any sequence of
  \<^verbatim>\<open>FetchPage\<close> and \<^verbatim>\<open>NewPage\<close> calls that leaves \<open>n\<close> distinct pages in
  the page table (nothing was unpinned), \<^verbatim>\<open>FetchPageImpl\<close> of a page that is not
  resident and \<^verbatim>\<open>NewPageImpl\<close> return \<^verbatim>\<open>nullptr\<close>; the only trace of the failed
  call is the \<^verbatim>\<open>Victim\<close> call in the replacer's log. The disk manager is untouched:
  no \<^verbatim>\<open>AllocatePage\<close> call, the next free identifier is the same. This stays so
  for every further sequence of such calls: none of them changes the page table or
  the disk manager.
\<close>
theorem pool_exhausted:
  assumes "list_all fetch_or_new ops"
    and "s = run ops (BufferPoolManager n d)"
    and "length (page_table s) = n"
  shows "(\<forall>q. pt_find (page_table s) q = None \<longrightarrow>
            FetchPageImpl q s =
              (None, s\<lparr>replacer := (replacer s)\<lparr>replacer_log := replacer_log (replacer s) @ [CallVictim]\<rparr>\<rparr>)) \<and>
    NewPageImpl s =
      (None, s\<lparr>replacer := (replacer s)\<lparr>replacer_log := replacer_log (replacer s) @ [CallVictim]\<rparr>\<rparr>) \<and>
    disk_manager (snd (NewPageImpl s)) = disk_manager s \<and>
    (\<forall>further. list_all fetch_or_new further \<longrightarrow>
       page_table (run further s) = page_table s \<and> disk_manager (run further s) = disk_manager s)"
proof -
  have "nothing_released s"
    using assms(1,2) by (simp add: nothing_released_run nothing_released_init)
  moreover have "pool_size s = n"
    using assms(2) by (simp add: BufferPoolManager_def)
  ultimately have ev: "evictable (replacer s) = []" and fl: "free_list s = []"
    using assms(3) by (simp_all add: nothing_released_def)
  have now: "(\<forall>q. pt_find (page_table s) q = None \<longrightarrow>
            FetchPageImpl q s =
              (None, s\<lparr>replacer := (replacer s)\<lparr>replacer_log := replacer_log (replacer s) @ [CallVictim]\<rparr>\<rparr>)) \<and>
    NewPageImpl s =
      (None, s\<lparr>replacer := (replacer s)\<lparr>replacer_log := replacer_log (replacer s) @ [CallVictim]\<rparr>\<rparr>) \<and>
    disk_manager (snd (NewPageImpl s)) = disk_manager s"
    using fl by (simp add: FetchPageImpl_def NewPageImpl_none [OF fl Victim_none [OF ev]] Victim_none [OF ev])
  have later: "\<forall>further. list_all fetch_or_new further \<longrightarrow>
       page_table (run further s) = page_table s \<and> disk_manager (run further s) = disk_manager s"
    using exhausted_run [OF ev fl] by blast
  from now later show ?thesis
    by blast
qed

theorem pool_exhausted_witness:
  "list_all fetch_or_new [FetchPage 0, NewPage] \<and>
   length (page_table pool_filled) = 2 \<and>
   pt_find (page_table pool_filled) 1 = None \<and>
   fst (FetchPageImpl 1 pool_filled) = None \<and>
   fst (NewPageImpl pool_filled) = None \<and>
   disk_manager (snd (NewPageImpl pool_filled)) = disk_manager pool_filled \<and>
   disk_log (disk_manager pool_filled) = [DiskRead 0, DiskAllocate 3] \<and>
   list_all fetch_or_new [NewPage, FetchPage 1, FetchPage 0, NewPage] \<and>
   disk_log (disk_manager (run [NewPage, FetchPage 1, FetchPage 0, NewPage] pool_filled)) =
     [DiskRead 0, DiskAllocate 3] \<and>
   page_table (run [NewPage, FetchPage 1, FetchPage 0, NewPage] pool_filled) = [(0, 0), (3, 1)]"
proof -
  have h1: "list_all fetch_or_new [FetchPage 0, NewPage]"
    and h5: "list_all fetch_or_new [NewPage, FetchPage 1, FetchPage 0, NewPage]"
    by (simp_all add: fetch_or_new_def)
  have h2: "length (page_table pool_filled) = 2"
    and h3: "pt_find (page_table pool_filled) 1 = None"
    and h4: "disk_log (disk_manager pool_filled) = [DiskRead 0, DiskAllocate 3]"
    and h6: "page_table pool_filled = [(0, 0), (3, 1)]"
    by (simp_all add: pool_filled_def eval_defs)
  note exhausted = pool_exhausted [OF h1 pool_filled_def h2]
  from exhausted h3
  have now: "fst (FetchPageImpl 1 pool_filled) = None \<and> fst (NewPageImpl pool_filled) = None \<and>
      disk_manager (snd (NewPageImpl pool_filled)) = disk_manager pool_filled"
    by simp
  from exhausted h5
  have later: "page_table (run [NewPage, FetchPage 1, FetchPage 0, NewPage] pool_filled) =
        page_table pool_filled \<and>
      disk_manager (run [NewPage, FetchPage 1, FetchPage 0, NewPage] pool_filled) =
        disk_manager pool_filled"
    by blast
  show ?thesis
    using now later h1 h2 h3 h4 h5 h6 by (simp del: run.simps)
qed

section \<open>Call sequences on which the code departs from the claims\<close>

lemma PAGE_SIZE_pos: "0 < PAGE_SIZE"
  by (simp add: PAGE_SIZE_def)

text \<open>
  Claim C2, evaluated where the code leaves the invariant. Pool size 1: page 0 is
  fetched and unpinned clean, then page 1 is fetched. The replacer hands out frame 0;
  the frame is clean, so lines 73 to 77 are skipped and with them the \<^verbatim>\<open>erase\<close>.
  The page table then has two entries for one frame of a pool of size 1, and the entry
  of page 0 points to a frame whose \<^verbatim>\<open>page_id_\<close> is 1.
\<close>
theorem fetch_leaves_stale_entry:
  "pool_size stale_entry = 1 \<and>
   page_table stale_entry = [(0, 0), (1, 0)] \<and>
   length (page_table stale_entry) = 2 \<and>
   pt_find (page_table stale_entry) 0 = Some 0 \<and>
   page_id (page_at stale_entry 0) = 1"
  by (simp add: stale_entry_def eval_defs)

text \<open>
  Claim C1, evaluated where a dirty page is lost. Pool size 1. After the calls of
  \<open>dirty_on_stale_entry\<close> the page table still has the entry of page 0 that
  \<^verbatim>\<open>FetchPageImpl\<close> did not erase when it evicted the clean page 0 for page 1; the
  caller's \<^verbatim>\<open>FetchPage(0)\<close> hit that entry, the caller wrote its bytes and unpinned
  with the dirty flag. \<^verbatim>\<open>FetchPage(2)\<close> then reuses frame 0: the bytes are written
  under page id 1 (the \<^verbatim>\<open>page_id_\<close> of the frame), page 0 on disk keeps its old
  bytes, and the next \<^verbatim>\<open>FetchPage(0)\<close> hits the entry again and returns the bytes
  of page 2.
\<close>
theorem dirty_page_lost:
  "pt_find (page_table dirty_on_stale_entry) 0 = Some 0 \<and>
   pin_count (page_at dirty_on_stale_entry 0) = 0 \<and>
   is_dirty (page_at dirty_on_stale_entry 0) \<and>
   data (page_at dirty_on_stale_entry 0) = replicate PAGE_SIZE 99 \<and>
   stored (disk_manager dirty_on_stale_entry) 0 = Some (replicate PAGE_SIZE 10) \<and>
   fst (FetchPageImpl 2 dirty_on_stale_entry) = Some 0 \<and>
   disk_log (disk_manager (snd (FetchPageImpl 2 dirty_on_stale_entry))) =
     disk_log (disk_manager dirty_on_stale_entry) @
       [DiskWrite 1 (replicate PAGE_SIZE 99), DiskRead 2] \<and>
   stored (disk_manager (snd (FetchPageImpl 2 dirty_on_stale_entry))) 0 =
     Some (replicate PAGE_SIZE 10) \<and>
   fst (FetchPageImpl 0 (run [FetchPage 2, UnpinPage 2 False] dirty_on_stale_entry)) = Some 0 \<and>
   data (page_at (run [FetchPage 2, UnpinPage 2 False, FetchPage 0] dirty_on_stale_entry) 0) =
     replicate PAGE_SIZE 12 \<and>
   replicate PAGE_SIZE (12 :: byte) \<noteq> replicate PAGE_SIZE 99"
proof -
  have "replicate PAGE_SIZE (12 :: byte) \<noteq> replicate PAGE_SIZE 99"
    using PAGE_SIZE_pos by simp
  then show ?thesis
    by (simp add: dirty_on_stale_entry_def eval_defs)
qed

text \<open>
  Claim C3, evaluated where a pinned frame is evicted. Pool size 2. Page 1 is fetched
  into frame 0, unpinned, and fetched again: the hit path calls \<^verbatim>\<open>Pin(page_id)\<close>,
  that is \<^verbatim>\<open>Pin(1)\<close>, where the frame is 0, so frame 0 stays evictable with pin
  count 1. Page 2 takes the last free frame. \<^verbatim>\<open>Victim\<close> then returns frame 0 and
  \<^verbatim>\<open>FetchPage(0)\<close> loads page 0 into it while page 1 is pinned there.
\<close>
theorem pinned_frame_is_victim:
  "replacer_log (replacer pinned_but_evictable) = [CallUnpin 0, CallPin 1] \<and>
   evictable (replacer pinned_but_evictable) = [0] \<and>
   free_list pinned_but_evictable = [] \<and>
   page_id (page_at pinned_but_evictable 0) = 1 \<and>
   pin_count (page_at pinned_but_evictable 0) = 1 \<and>
   Victim (replacer pinned_but_evictable) =
     (Some 0, \<lparr>evictable = [], replacer_log = [CallUnpin 0, CallPin 1, CallVictim]\<rparr>) \<and>
   fst (FetchPageImpl 0 pinned_but_evictable) = Some 0 \<and>
   page_id (page_at (snd (FetchPageImpl 0 pinned_but_evictable)) 0) = 0"
  by (simp add: pinned_but_evictable_def eval_defs)

text \<open>
  Claim C9, evaluated where the returned frame is dirty. Pool size 1. After the calls of
  \<open>dirty_free_frame\<close> frame 0 is on the free list (through \<^verbatim>\<open>DeletePage(1)\<close>,
  which found the entry of page 1 that \<^verbatim>\<open>FetchPageImpl\<close> had not erased) and is
  dirty (through \<^verbatim>\<open>UnpinPage(0, true)\<close>, page 0 being still in the page table).
  \<^verbatim>\<open>NewPageImpl\<close> takes the frame from the free list and never assigns
  \<^verbatim>\<open>is_dirty_\<close>: the returned frame is zeroed, pinned once, registered, and dirty.
\<close>
theorem new_page_keeps_dirty_flag:
  "free_list dirty_free_frame = [0] \<and>
   is_dirty (page_at dirty_free_frame 0) \<and>
   fst (NewPageImpl dirty_free_frame) = Some (3, 0) \<and>
   is_dirty (page_at (snd (NewPageImpl dirty_free_frame)) 0) \<and>
   pin_count (page_at (snd (NewPageImpl dirty_free_frame)) 0) = 1 \<and>
   data (page_at (snd (NewPageImpl dirty_free_frame)) 0) = replicate PAGE_SIZE 0 \<and>
   pt_find (page_table (snd (NewPageImpl dirty_free_frame))) 3 = Some 0"
  by (simp add: dirty_free_frame_def eval_defs)

section \<open>Calls to the replacer\<close>

text \<open>
  Claim C8, evaluated where a notification is missing. Pool size 1. In
  \<open>freed_but_evictable\<close> frame 0 is on the free list with pin count 0 and is still
  evictable in the replacer. \<^verbatim>\<open>FetchPage(1)\<close> takes the frame from the free list
  and its pin count from 0 to 1 without any call to the replacer, so the frame stays
  evictable; \<^verbatim>\<open>FetchPage(2)\<close> then gets frame 0 from \<^verbatim>\<open>Victim\<close> and loads
  page 2 over the pinned page 1. Second, in a pool of two frames: \<^verbatim>\<open>FetchPage(1)\<close>
  of the resident page 1 takes the pin count of frame 0 from 1 to 2 and calls
  \<^verbatim>\<open>Pin\<close> with the page id 1, where the frame index is 0.
\<close>
theorem pin_call_missing:
  "free_list freed_but_evictable = [0] \<and>
   evictable (replacer freed_but_evictable) = [0] \<and>
   replacer_log (replacer freed_but_evictable) = [CallUnpin 0] \<and>
   pin_count (page_at freed_but_evictable 0) = 0 \<and>
   fst (FetchPageImpl 1 freed_but_evictable) = Some 0 \<and>
   pin_count (page_at (snd (FetchPageImpl 1 freed_but_evictable)) 0) = 1 \<and>
   page_id (page_at (snd (FetchPageImpl 1 freed_but_evictable)) 0) = 1 \<and>
   replacer (snd (FetchPageImpl 1 freed_but_evictable)) = replacer freed_but_evictable \<and>
   fst (FetchPageImpl 2 (run [FetchPage 1] freed_but_evictable)) = Some 0 \<and>
   page_id (page_at (run [FetchPage 1, FetchPage 2] freed_but_evictable) 0) = 2 \<and>
   pin_count (page_at one_fetch 0) = 1 \<and>
   fst (FetchPageImpl 1 one_fetch) = Some 0 \<and>
   pin_count (page_at (snd (FetchPageImpl 1 one_fetch)) 0) = 2 \<and>
   replacer_log (replacer (snd (FetchPageImpl 1 one_fetch))) =
     replacer_log (replacer one_fetch) @ [CallPin 1]"
  by (simp add: freed_but_evictable_def one_fetch_def eval_defs)

lemma flush_frames_replacer [simp]: "replacer (flush_frames is s) = replacer s"
  by (induction "is" arbitrary: s) (simp_all add: flush_frame_def Let_def)

text \<open>
  The calls to the replacer that each operation makes, as the code is written:
  \<^verbatim>\<open>FetchPageImpl\<close> calls \<^verbatim>\<open>Pin\<close> once when it finds the page resident and
  not when it loads a page; there, and in \<^verbatim>\<open>NewPageImpl\<close>, the only call is
  \<^verbatim>\<open>Victim\<close>, made when the free list is empty. \<^verbatim>\<open>UnpinPageImpl\<close> calls
  \<^verbatim>\<open>Unpin\<close> with the frame index exactly when it takes the pin count from 1 to 0.
  Flush, FlushAll and DeletePage make no call, which is how the frame of
  \<open>freed_but_evictable\<close> stays evictable.
\<close>
lemma replacer_calls:
  assumes "valid_frames s"
  shows "(\<forall>f. pt_find (page_table s) pid = Some f \<longrightarrow>
            (\<exists>x. replacer_log (replacer (snd (FetchPageImpl pid s))) =
                   replacer_log (replacer s) @ [CallPin x])) \<and>
    (pt_find (page_table s) pid = None \<longrightarrow>
       replacer_log (replacer (snd (FetchPageImpl pid s))) =
         replacer_log (replacer s) @ (if free_list s = [] then [CallVictim] else [])) \<and>
    replacer_log (replacer (snd (NewPageImpl s))) =
      replacer_log (replacer s) @ (if free_list s = [] then [CallVictim] else []) \<and>
    replacer_log (replacer (snd (UnpinPageImpl pid dirty s))) =
      replacer_log (replacer s) @
        (case pt_find (page_table s) pid of
           None \<Rightarrow> []
         | Some f \<Rightarrow> if pin_count (page_at s f) = 1 then [CallUnpin f] else []) \<and>
    replacer (snd (FlushPageImpl pid s)) = replacer s \<and>
    replacer (FlushAllPagesImpl s) = replacer s \<and>
    replacer (snd (DeletePageImpl pid s)) = replacer s"
proof -
  have hit: "\<forall>f. pt_find (page_table s) pid = Some f \<longrightarrow>
            (\<exists>x. replacer_log (replacer (snd (FetchPageImpl pid s))) =
                   replacer_log (replacer s) @ [CallPin x])"
    by (simp add: FetchPageImpl_def Pin_def)
  have miss: "pt_find (page_table s) pid = None \<longrightarrow>
       replacer_log (replacer (snd (FetchPageImpl pid s))) =
         replacer_log (replacer s) @ (if free_list s = [] then [CallVictim] else [])"
    by (cases "evictable (replacer s)") (simp_all add: FetchPageImpl_def Victim_def)
  have new: "replacer_log (replacer (snd (NewPageImpl s))) =
      replacer_log (replacer s) @ (if free_list s = [] then [CallVictim] else [])"
  proof (cases "free_list s = []")
    case False
    then show ?thesis by (simp add: NewPageImpl_free)
  next
    case True
    then show ?thesis
      by (cases "evictable (replacer s)")
         (simp_all add: NewPageImpl_def Victim_def Let_def case_prod_beta)
  qed
  have unpin: "replacer_log (replacer (snd (UnpinPageImpl pid dirty s))) =
      replacer_log (replacer s) @
        (case pt_find (page_table s) pid of
           None \<Rightarrow> []
         | Some f \<Rightarrow> if pin_count (page_at s f) = 1 then [CallUnpin f] else [])"
  proof (cases "pt_find (page_table s) pid")
    case None
    then show ?thesis by (simp add: UnpinPageImpl_def)
  next
    case (Some f)
    from valid_frames_find [OF assms Some] have "0 \<le> f" "nat f < length (pages s)"
      by simp_all
    then have "pin_count (page_at (set_page f
                 (\<lambda>pg. pg\<lparr>pin_count := pin_count pg - 1, is_dirty := (is_dirty pg \<or> dirty)\<rparr>) s) f)
               = pin_count (page_at s f) - 1"
      by (simp add: page_at_set_page_same)
    with Some show ?thesis
      by (simp add: UnpinPageImpl_def Let_def Unpin_def)
  qed
  have rest: "replacer (snd (FlushPageImpl pid s)) = replacer s \<and>
    replacer (FlushAllPagesImpl s) = replacer s \<and>
    replacer (snd (DeletePageImpl pid s)) = replacer s"
    by (simp add: FlushPageImpl_def FlushAllPagesImpl_def DeletePageImpl_def Let_def
             split: option.splits)
  show ?thesis
    by (rule conjI [OF hit conjI [OF miss conjI [OF new conjI [OF unpin rest]]]])
qed

lemma replacer_calls_example:
  "valid_frames pinned_and_released \<and>
   pt_find (page_table pinned_and_released) 0 = Some 0 \<and>
   pin_count (page_at pinned_and_released 0) = 1 \<and>
   (\<exists>x. replacer_log (replacer (snd (FetchPageImpl 0 pinned_and_released))) =
          [CallUnpin 1, CallPin x]) \<and>
   pt_find (page_table pinned_and_released) 2 = None \<and>
   free_list pinned_and_released = [] \<and>
   replacer_log (replacer (snd (FetchPageImpl 2 pinned_and_released))) =
     [CallUnpin 1, CallVictim] \<and>
   replacer_log (replacer (snd (NewPageImpl pinned_and_released))) =
     [CallUnpin 1, CallVictim] \<and>
   replacer_log (replacer (snd (UnpinPageImpl 0 False pinned_and_released))) =
     [CallUnpin 1, CallUnpin 0] \<and>
   replacer (snd (DeletePageImpl 1 pinned_and_released)) = replacer pinned_and_released"
proof -
  have v: "valid_frames pinned_and_released"
    and h1: "pt_find (page_table pinned_and_released) 0 = Some 0"
    and h2: "pin_count (page_at pinned_and_released 0) = 1"
    and h3: "pt_find (page_table pinned_and_released) 2 = None"
    and h4: "free_list pinned_and_released = []"
    and h5: "replacer_log (replacer pinned_and_released) = [CallUnpin 1]"
    by (simp_all add: pinned_and_released_def eval_defs)
  show ?thesis
    using replacer_calls [OF v, of 0 False] replacer_calls [OF v, of 2 False]
      replacer_calls [OF v, of 1 False] v h1 h2 h3 h4 h5
    by simp
qed

section \<open>Further properties of the reuse of a frame\<close>

lemma valid_frames_in_range:
  "valid_frames s \<Longrightarrow> valid_frame (pool_size s) f \<Longrightarrow> 0 \<le> f \<and> nat f < length (pages s)"
  by (simp add: valid_frames_def valid_frame_def)

lemma Fetch_miss_frame:
  assumes "valid_frames s" and "pt_find (page_table s) pid = None"
    and "fst (FetchPageImpl pid s) = Some f"
  shows "valid_frame (pool_size s) f \<and>
         (\<exists>s0. snd (FetchPageImpl pid s) = fetch_into pid f s0 \<and> pages s0 = pages s \<and>
               page_table s0 = page_table s \<and> disk_manager s0 = disk_manager s)"
proof (cases "free_list s = []")
  case False
  with assms valid_frames_pop [OF assms(1) False] show ?thesis
    by (auto simp: FetchPageImpl_def intro!: exI [of _ "s\<lparr>free_list := tl (free_list s)\<rparr>"])
next
  case True
  obtain v r where V: "Victim (replacer s) = (v, r)" by (cases "Victim (replacer s)")
  with assms True valid_frames_Victim [OF assms(1) V] show ?thesis
    by (cases v) (auto simp: FetchPageImpl_def intro!: exI [of _ "s\<lparr>replacer := r\<rparr>"])
qed

lemma fetch_into_write_back:
  assumes "0 \<le> f" and "nat f < length (pages s)" and "is_dirty (page_at s f)"
    and "pt_find (page_table s) (page_id (page_at s f)) = Some f"
    and "page_id (page_at s f) \<noteq> pid"
  shows "disk_log (disk_manager (fetch_into pid f s)) =
           disk_log (disk_manager s) @
             [DiskWrite (page_id (page_at s f)) (data (page_at s f)), DiskRead pid] \<and>
         stored (disk_manager (fetch_into pid f s)) (page_id (page_at s f)) =
           Some (data (page_at s f)) \<and>
         pt_find (page_table (fetch_into pid f s)) (page_id (page_at s f)) = None"
  using assms
  by (simp add: fetch_into_def fetch_load_def fetch_write_back_def Let_def
        FlushPageImplWithoutLock_def WritePage_def ReadPage_def case_prod_beta
        pt_find_def pt_insert_def)
     (simp add: pt_find_def [symmetric])

lemma new_write_back_effect:
  assumes "0 \<le> f" and "nat f < length (pages s)" and "is_dirty (page_at s f)"
    and "pt_find (page_table s) (page_id (page_at s f)) = Some f"
  shows "disk_log (disk_manager (new_write_back f s)) =
           disk_log (disk_manager s) @ [DiskWrite (page_id (page_at s f)) (data (page_at s f))] \<and>
         stored (disk_manager (new_write_back f s)) (page_id (page_at s f)) =
           Some (data (page_at s f)) \<and>
         next_page_id (disk_manager (new_write_back f s)) = next_page_id (disk_manager s) \<and>
         \<not> is_dirty (page_at (new_write_back f s) f)"
  using assms
  by (simp add: new_write_back_def Let_def FlushPageImplWithoutLock_def WritePage_def
        page_at_def set_page_def)

lemma new_into_disk:
  "disk_log (disk_manager (snd (new_into f s))) =
     disk_log (disk_manager s) @ [DiskAllocate (next_page_id (disk_manager s))]"
  "stored (disk_manager (snd (new_into f s))) = stored (disk_manager s)"
  "next_page_id (disk_manager (snd (new_into f s))) = next_page_id (disk_manager s) + 1"
  by (simp_all add: new_into_def Let_def AllocatePage_def case_prod_beta)

lemma new_into_page:
  "0 \<le> f \<Longrightarrow> nat f < length (pages s) \<Longrightarrow>
   page_at (snd (new_into f s)) f =
     (page_at s f)\<lparr>data := replicate PAGE_SIZE 0, page_id := next_page_id (disk_manager s),
                   pin_count := 1\<rparr>"
  by (simp add: new_into_def Let_def AllocatePage_def case_prod_beta page_at_def set_page_def
        ResetMemory_def)

text \<open>
  Where the entry of the page in the chosen frame points to that frame, the write-back
  is made before the frame is reused: \<^verbatim>\<open>FetchPageImpl\<close> calls \<^verbatim>\<open>WritePage\<close> with
  the page id and the bytes of the dirty frame and only then \<^verbatim>\<open>ReadPage\<close> for the
  requested page; \<^verbatim>\<open>NewPageImpl\<close> calls it before \<^verbatim>\<open>AllocatePage\<close>. The disk
  then holds the bytes of the evicted page.
\<close>
theorem write_back_before_reuse:
  assumes "valid_frames s"
    and "is_dirty (page_at s f)"
    and "pt_find (page_table s) (page_id (page_at s f)) = Some f"
  shows "(pt_find (page_table s) pid = None \<and> fst (FetchPageImpl pid s) = Some f \<longrightarrow>
            disk_log (disk_manager (snd (FetchPageImpl pid s))) =
              disk_log (disk_manager s) @
                [DiskWrite (page_id (page_at s f)) (data (page_at s f)), DiskRead pid] \<and>
            stored (disk_manager (snd (FetchPageImpl pid s))) (page_id (page_at s f)) =
              Some (data (page_at s f)) \<and>
            pt_find (page_table (snd (FetchPageImpl pid s))) (page_id (page_at s f)) = None) \<and>
    (free_list s = [] \<and> fst (NewPageImpl s) = Some (new_id, f) \<longrightarrow>
            disk_log (disk_manager (snd (NewPageImpl s))) =
              disk_log (disk_manager s) @
                [DiskWrite (page_id (page_at s f)) (data (page_at s f)), DiskAllocate new_id] \<and>
            stored (disk_manager (snd (NewPageImpl s))) (page_id (page_at s f)) =
              Some (data (page_at s f)) \<and>
            \<not> is_dirty (page_at (snd (NewPageImpl s)) f))"
proof (rule conjI; rule impI)
  assume a: "pt_find (page_table s) pid = None \<and> fst (FetchPageImpl pid s) = Some f"
  then have ne: "page_id (page_at s f) \<noteq> pid"
    using assms(3) by auto
  from Fetch_miss_frame [OF assms(1), of pid f] a
  obtain s0 where ok: "valid_frame (pool_size s) f"
    and s0: "snd (FetchPageImpl pid s) = fetch_into pid f s0" "pages s0 = pages s"
      "page_table s0 = page_table s" "disk_manager s0 = disk_manager s"
    by auto
  from valid_frames_in_range [OF assms(1) ok] have r: "0 \<le> f" "nat f < length (pages s0)"
    by (simp_all add: s0)
  have same: "page_at s0 f = page_at s f"
    by (simp add: page_at_def s0)
  from fetch_into_write_back [OF r, of pid] assms(2,3) ne
  show "disk_log (disk_manager (snd (FetchPageImpl pid s))) =
              disk_log (disk_manager s) @
                [DiskWrite (page_id (page_at s f)) (data (page_at s f)), DiskRead pid] \<and>
            stored (disk_manager (snd (FetchPageImpl pid s))) (page_id (page_at s f)) =
              Some (data (page_at s f)) \<and>
            pt_find (page_table (snd (FetchPageImpl pid s))) (page_id (page_at s f)) = None"
    by (simp add: s0 same)
next
  assume a: "free_list s = [] \<and> fst (NewPageImpl s) = Some (new_id, f)"
  obtain v r where V: "Victim (replacer s) = (v, r)" by (cases "Victim (replacer s)")
  have v: "v = Some f"
  proof (cases v)
    case None
    with a V show ?thesis
      using NewPageImpl_none [of s r] by simp
  next
    case (Some g)
    with a V show ?thesis
      using NewPageImpl_victim [of s g r] by simp
  qed
  define s0 where "s0 = s\<lparr>replacer := r\<rparr>"
  have ok: "valid_frame (pool_size s) f"
    using valid_frames_Victim [OF assms(1) V] v by simp
  from valid_frames_in_range [OF assms(1) ok] have r: "0 \<le> f" "nat f < length (pages s0)"
    by (simp_all add: s0_def)
  have same: "page_at s0 f = page_at s f" "page_table s0 = page_table s"
    "disk_manager s0 = disk_manager s"
    by (simp_all add: page_at_def s0_def)
  have N: "NewPageImpl s =
     (Some (next_page_id (disk_manager (new_write_back f s0)), f),
      snd (new_into f (new_write_back f s0)))"
    using a V v by (simp add: NewPageImpl_victim s0_def)
  with a have id: "new_id = next_page_id (disk_manager s)"
    using new_write_back_effect [OF r] assms(2,3) by (simp add: same)
  have r': "nat f < length (pages (new_write_back f s0))"
    using r by simp
  show "disk_log (disk_manager (snd (NewPageImpl s))) =
              disk_log (disk_manager s) @
                [DiskWrite (page_id (page_at s f)) (data (page_at s f)), DiskAllocate new_id] \<and>
            stored (disk_manager (snd (NewPageImpl s))) (page_id (page_at s f)) =
              Some (data (page_at s f)) \<and>
            \<not> is_dirty (page_at (snd (NewPageImpl s)) f)"
    using new_write_back_effect [OF r] assms(2,3) id
    by (simp add: N new_into_disk new_into_page [OF r(1) r'] same)
qed

theorem write_back_before_reuse_witness:
  "valid_frames one_dirty_page \<and>
   is_dirty (page_at one_dirty_page 0) \<and>
   page_id (page_at one_dirty_page 0) = 0 \<and>
   pt_find (page_table one_dirty_page) 0 = Some 0 \<and>
   pt_find (page_table one_dirty_page) 1 = None \<and>
   fst (FetchPageImpl 1 one_dirty_page) = Some 0 \<and>
   disk_log (disk_manager (snd (FetchPageImpl 1 one_dirty_page))) =
     [DiskRead 0, DiskWrite 0 (replicate PAGE_SIZE 7), DiskRead 1] \<and>
   stored (disk_manager (snd (FetchPageImpl 1 one_dirty_page))) 0 = Some (replicate PAGE_SIZE 7) \<and>
   free_list one_dirty_page = [] \<and>
   fst (NewPageImpl one_dirty_page) = Some (3, 0) \<and>
   disk_log (disk_manager (snd (NewPageImpl one_dirty_page))) =
     [DiskRead 0, DiskWrite 0 (replicate PAGE_SIZE 7), DiskAllocate 3] \<and>
   \<not> is_dirty (page_at (snd (NewPageImpl one_dirty_page)) 0)"
proof -
  have v: "valid_frames one_dirty_page"
    and h1: "is_dirty (page_at one_dirty_page 0)"
    and h2: "page_id (page_at one_dirty_page 0) = 0"
    and h3: "pt_find (page_table one_dirty_page) 0 = Some 0"
    and h4: "pt_find (page_table one_dirty_page) 1 = None"
    and h5: "fst (FetchPageImpl 1 one_dirty_page) = Some 0"
    and h6: "free_list one_dirty_page = []"
    and h7: "fst (NewPageImpl one_dirty_page) = Some (3, 0)"
    and h8: "data (page_at one_dirty_page 0) = replicate PAGE_SIZE 7"
    and h9: "disk_log (disk_manager one_dirty_page) = [DiskRead 0]"
    by (simp_all add: one_dirty_page_def eval_defs)
  have h3': "pt_find (page_table one_dirty_page) (page_id (page_at one_dirty_page 0)) = Some 0"
    using h2 h3 by simp
  show ?thesis
    using write_back_before_reuse [OF v h1 h3', of 1 3] v h1 h2 h3 h4 h5 h6 h7 h8 h9
    by simp
qed

lemma pt_find_insert_same: "pt_find (pt_insert pid f t) pid \<noteq> None"
  by (cases "map_of t pid") (simp_all add: pt_find_def pt_insert_def)

lemma page_at_table_upd [simp]: "page_at (s\<lparr>page_table := t\<rparr>) f = page_at s f"
  by (simp add: page_at_def)

lemma new_write_back_stays_clean:
  "\<not> is_dirty (page_at s g) \<Longrightarrow> \<not> is_dirty (page_at (new_write_back f s) g)"
  by (simp add: new_write_back_def Let_def Flush_stays_clean)

text \<open>
  What \<^verbatim>\<open>NewPageImpl\<close> guarantees of the frame it returns in every state with valid
  frame indices: the identifier is the one \<^verbatim>\<open>AllocatePage\<close> returned, the frame is
  zeroed, carries that identifier and is pinned once, and the identifier is a key of the
  page table. The dirty flag is not assigned: the frame is dirty only if it was dirty
  before the call.
\<close>
theorem new_page_result:
  assumes "valid_frames s" and "NewPageImpl s = (Some (new_id, f), s')"
  shows "new_id = next_page_id (disk_manager s) \<and>
    next_page_id (disk_manager s') = new_id + 1 \<and>
    pin_count (page_at s' f) = 1 \<and>
    data (page_at s' f) = replicate PAGE_SIZE 0 \<and>
    page_id (page_at s' f) = new_id \<and>
    pt_find (page_table s') new_id \<noteq> None \<and>
    (is_dirty (page_at s' f) \<longrightarrow> is_dirty (page_at s f))"
proof (cases "free_list s = []")
  case False
  define s0 where "s0 = s\<lparr>free_list := tl (free_list s)\<rparr>"
  from assms(2) False have f: "f = hd (free_list s)" and id: "new_id = next_page_id (disk_manager s)"
    and s': "s' = snd (new_into f s0)"
    by (auto simp: NewPageImpl_free s0_def)
  from valid_frames_pop [OF assms(1) False] f have "valid_frame (pool_size s) f"
    by simp
  from valid_frames_in_range [OF assms(1) this] have r: "0 \<le> f" "nat f < length (pages s0)"
    by (simp_all add: s0_def)
  have same: "page_at s0 f = page_at s f" "disk_manager s0 = disk_manager s"
    by (simp_all add: page_at_def s0_def)
  show ?thesis
    using id by (simp add: s' new_into_page [OF r] new_into_disk same pt_find_insert_same)
next
  case True
  obtain v r where V: "Victim (replacer s) = (v, r)" by (cases "Victim (replacer s)")
  have v: "v = Some f"
  proof (cases v)
    case None
    with assms(2) True V show ?thesis
      using NewPageImpl_none [of s r] by simp
  next
    case (Some g)
    with assms(2) True V show ?thesis
      using NewPageImpl_victim [of s g r] by simp
  qed
  define s0 where "s0 = new_write_back f (s\<lparr>replacer := r\<rparr>)"
  have N: "NewPageImpl s = (Some (next_page_id (disk_manager s0), f), snd (new_into f s0))"
    using True V v by (simp add: NewPageImpl_victim s0_def)
  have ok: "valid_frame (pool_size s) f"
    using valid_frames_Victim [OF assms(1) V] v by simp
  from valid_frames_in_range [OF assms(1) ok] have r: "0 \<le> f" "nat f < length (pages s0)"
    by (simp_all add: s0_def)
  have d: "next_page_id (disk_manager s0) = next_page_id (disk_manager s)"
    by (simp add: s0_def new_write_back_def Let_def FlushPageImplWithoutLock_def WritePage_def
             split: option.splits)
  have c: "is_dirty (page_at s0 f) \<longrightarrow> is_dirty (page_at s f)"
    using new_write_back_stays_clean [of "s\<lparr>replacer := r\<rparr>" f f]
    by (auto simp: s0_def page_at_def)
  from N assms(2) have "new_id = next_page_id (disk_manager s0)" and "s' = snd (new_into f s0)"
    by simp_all
  then show ?thesis
    using c d by (simp add: new_into_page [OF r] new_into_disk pt_find_insert_same)
qed

theorem new_page_result_witness:
  "valid_frames dirty_free_frame \<and>
   NewPageImpl dirty_free_frame = (Some (3, 0), snd (NewPageImpl dirty_free_frame)) \<and>
   next_page_id (disk_manager dirty_free_frame) = 3 \<and>
   next_page_id (disk_manager (snd (NewPageImpl dirty_free_frame))) = 4 \<and>
   pin_count (page_at (snd (NewPageImpl dirty_free_frame)) 0) = 1 \<and>
   data (page_at (snd (NewPageImpl dirty_free_frame)) 0) = replicate PAGE_SIZE 0 \<and>
   page_id (page_at (snd (NewPageImpl dirty_free_frame)) 0) = 3 \<and>
   pt_find (page_table (snd (NewPageImpl dirty_free_frame))) 3 \<noteq> None \<and>
   is_dirty (page_at (snd (NewPageImpl dirty_free_frame)) 0) \<and>
   is_dirty (page_at dirty_free_frame 0)"
proof -
  have v: "valid_frames dirty_free_frame"
    and h1: "fst (NewPageImpl dirty_free_frame) = Some (3, 0)"
    and h2: "is_dirty (page_at (snd (NewPageImpl dirty_free_frame)) 0)"
    by (simp_all add: dirty_free_frame_def eval_defs)
  have h3: "NewPageImpl dirty_free_frame = (Some (3, 0), snd (NewPageImpl dirty_free_frame))"
    using h1 by (simp add: prod_eq_iff)
  show ?thesis
    using new_page_result [OF v h3] v h2 h3 by simp
qed

lemma Flush_stored_other:
  "pt_find (page_table s) pid = None \<Longrightarrow>
   stored (disk_manager (snd (FlushPageImplWithoutLock q s))) pid = stored (disk_manager s) pid"
  by (auto simp: FlushPageImplWithoutLock_def WritePage_def split: option.splits)

lemma fetch_write_back_stored:
  "pt_find (page_table s) pid = None \<Longrightarrow>
   stored (disk_manager (fetch_write_back f s)) pid = stored (disk_manager s) pid"
  by (simp add: fetch_write_back_def Let_def Flush_stored_other)

lemma fetch_load_page:
  "0 \<le> f \<Longrightarrow> nat f < length (pages s) \<Longrightarrow>
   page_at (fetch_load pid f s) f =
     \<lparr>data = (case stored (disk_manager s) pid of
                None \<Rightarrow> replicate PAGE_SIZE 0 | Some bytes \<Rightarrow> bytes),
      page_id = pid, pin_count = 1, is_dirty = False\<rparr>"
  by (simp add: fetch_load_def Let_def ReadPage_def case_prod_beta page_at_def set_page_def
        ResetMemory_def split: option.splits)

text \<open>
  \<^verbatim>\<open>FetchPageImpl\<close> of a page that is not in the page table, when it gets a frame:
  the frame holds the bytes the disk manager has for the page (a write-back made on the
  way goes to another page id), carries the page id, is pinned once and clean, and the
  page is in the page table.
\<close>
theorem fetch_loads_stored_bytes:
  assumes "valid_frames s" and "pt_find (page_table s) pid = None"
    and "stored (disk_manager s) pid = Some bytes"
    and "fst (FetchPageImpl pid s) = Some f"
  shows "page_at (snd (FetchPageImpl pid s)) f =
           \<lparr>data = bytes, page_id = pid, pin_count = 1, is_dirty = False\<rparr> \<and>
         pt_find (page_table (snd (FetchPageImpl pid s))) pid \<noteq> None"
proof -
  from Fetch_miss_frame [OF assms(1,2,4)]
  obtain s0 where ok: "valid_frame (pool_size s) f"
    and s0: "snd (FetchPageImpl pid s) = fetch_into pid f s0" "pages s0 = pages s"
      "page_table s0 = page_table s" "disk_manager s0 = disk_manager s"
    by auto
  from valid_frames_in_range [OF assms(1) ok]
  have r: "0 \<le> f" "nat f < length (pages (fetch_write_back f s0))"
    by (simp_all add: s0)
  have "stored (disk_manager (fetch_write_back f s0)) pid = Some bytes"
    using assms(2,3) by (simp add: fetch_write_back_stored s0)
  then show ?thesis
    by (simp add: s0(1) fetch_into_def fetch_load_page [OF r] pt_find_insert_same)
qed

theorem fetch_loads_stored_bytes_witness:
  "valid_frames one_dirty_page \<and>
   pt_find (page_table one_dirty_page) 1 = None \<and>
   stored (disk_manager one_dirty_page) 1 = Some (replicate PAGE_SIZE 11) \<and>
   fst (FetchPageImpl 1 one_dirty_page) = Some 0 \<and>
   page_at (snd (FetchPageImpl 1 one_dirty_page)) 0 =
     \<lparr>data = replicate PAGE_SIZE 11, page_id = 1, pin_count = 1, is_dirty = False\<rparr> \<and>
   pt_find (page_table (snd (FetchPageImpl 1 one_dirty_page))) 1 \<noteq> None"
proof -
  have v: "valid_frames one_dirty_page"
    and h1: "pt_find (page_table one_dirty_page) 1 = None"
    and h2: "stored (disk_manager one_dirty_page) 1 = Some (replicate PAGE_SIZE 11)"
    and h3: "fst (FetchPageImpl 1 one_dirty_page) = Some 0"
    by (simp_all add: one_dirty_page_def eval_defs)
  show ?thesis
    using fetch_loads_stored_bytes [OF v h1 h2 h3] v h1 h2 h3 by simp
qed

end
